theory Spec2Isabelle
  imports Complex_Main
begin

section \<open>The numeric substrate: arrays as numpy holds them\<close>

text \<open>
  \<^verbatim>\<open>layer.py\<close> computes on numpy arrays. An array is its shape and its elements in
  row-major order. Floating-point numbers are idealised as reals: rounding, overflow,
  \<^verbatim>\<open>inf\<close> and \<^verbatim>\<open>nan\<close> are outside this development, and an operation whose numpy result is
  \<^verbatim>\<open>inf\<close> or \<^verbatim>\<open>nan\<close> (division of an array by zero) is the outcome \<open>NonFinite\<close>.
  Every exception of the source is a value: a function that can raise returns
  \<open>py_error + 'a\<close>. \<open>Unmodelled\<close> marks array ranks that numpy accepts and this development
  does not describe (for example \<^verbatim>\<open>np.dot\<close> on arrays that are not matrices).
\<close>

datatype py_error =
  AttributeError | ValueError | IndexError | TypeError | ZeroDivisionError
  | NonFinite | Unmodelled

record ndarray =
  shape :: "nat list"
  data :: "real list"

definition wf_array :: "ndarray \<Rightarrow> bool" where
  "wf_array a \<longleftrightarrow> length (data a) = prod_list (shape a)"

definition then_do :: "py_error + 'a \<Rightarrow> ('a \<Rightarrow> py_error + 'b) \<Rightarrow> py_error + 'b" where
  "then_do r f = (case r of Inl e \<Rightarrow> Inl e | Inr v \<Rightarrow> f v)"

text \<open>\<^verbatim>\<open>a.reshape(n, -1)\<close>: numpy infers the second dimension from the size; it refuses
  when the known dimensions multiply to zero or do not divide the size.\<close>

definition reshape_infer :: "ndarray \<Rightarrow> nat \<Rightarrow> py_error + ndarray" where
  "reshape_infer a n =
     (if n = 0 \<or> length (data a) mod n \<noteq> 0 then Inl ValueError
      else Inr \<lparr>shape = [n, length (data a) div n], data = data a\<rparr>)"

text \<open>\<^verbatim>\<open>a.reshape(sh)\<close> with every dimension given: the sizes must agree.\<close>

definition reshape :: "ndarray \<Rightarrow> nat list \<Rightarrow> py_error + ndarray" where
  "reshape a sh =
     (if prod_list sh = length (data a) then Inr \<lparr>shape = sh, data = data a\<rparr>
      else Inl ValueError)"

text \<open>Matrices: element \<open>(i, j)\<close> of an array of shape \<open>[m, n]\<close> is entry \<open>i * n + j\<close> of
  its elements; \<open>tabulate2\<close> builds the matrix whose entries a function gives.\<close>

definition at2 :: "ndarray \<Rightarrow> nat \<Rightarrow> nat \<Rightarrow> real" where
  "at2 a i j = data a ! (i * (shape a ! 1) + j)"

definition tabulate2 :: "nat \<Rightarrow> nat \<Rightarrow> (nat \<Rightarrow> nat \<Rightarrow> real) \<Rightarrow> ndarray" where
  "tabulate2 m n f = \<lparr>shape = [m, n], data = concat (map (\<lambda>i. map (f i) [0..<n]) [0..<m])\<rparr>"

text \<open>Broadcasting of one axis: two lengths are compatible when they are equal or one of
  them is 1; an axis of length 1 is read at index 0 whatever the index.\<close>

definition bdim :: "nat \<Rightarrow> nat \<Rightarrow> nat option" where
  "bdim m n = (if m = n then Some m else if m = 1 then Some n else if n = 1 then Some m else None)"

definition bidx :: "nat \<Rightarrow> nat \<Rightarrow> nat" where
  "bidx n i = (if n = 1 then 0 else i)"

text \<open>\<^verbatim>\<open>np.dot(a, b)\<close> on two matrices; the inner dimensions must agree.\<close>

definition np_dot :: "ndarray \<Rightarrow> ndarray \<Rightarrow> py_error + ndarray" where
  "np_dot a b =
     (case (shape a, shape b) of
        ([m, k], [k', n]) \<Rightarrow>
          if k = k'
          then Inr (tabulate2 m n (\<lambda>i j. sum_list (map (\<lambda>l. at2 a i l * at2 b l j) [0..<k])))
          else Inl ValueError
      | _ \<Rightarrow> Inl Unmodelled)"

text \<open>\<^verbatim>\<open>a.T\<close> of a matrix.\<close>

definition array_T :: "ndarray \<Rightarrow> py_error + ndarray" where
  "array_T a =
     (case shape a of
        [m, n] \<Rightarrow> Inr (tabulate2 n m (\<lambda>i j. at2 a j i))
      | _ \<Rightarrow> Inl Unmodelled)"

text \<open>\<^verbatim>\<open>a + b\<close> on two matrices, with broadcasting.\<close>

definition np_add :: "ndarray \<Rightarrow> ndarray \<Rightarrow> py_error + ndarray" where
  "np_add a b =
     (case (shape a, shape b) of
        ([m, n], [p, q]) \<Rightarrow>
          (case (bdim m p, bdim n q) of
             (Some r, Some c) \<Rightarrow>
               Inr (tabulate2 r c (\<lambda>i j. at2 a (bidx m i) (bidx n j) + at2 b (bidx p i) (bidx q j)))
           | _ \<Rightarrow> Inl ValueError)
      | _ \<Rightarrow> Inl Unmodelled)"

text \<open>\<^verbatim>\<open>np.sum(a, axis=0, keepdims=True)\<close>.\<close>

definition sum_axis0_keepdims :: "ndarray \<Rightarrow> py_error + ndarray" where
  "sum_axis0_keepdims a =
     (case shape a of
        [] \<Rightarrow> Inl ValueError
      | m # rest \<Rightarrow>
          Inr \<lparr>shape = 1 # rest,
               data = map (\<lambda>k. sum_list (map (\<lambda>i. data a ! (i * prod_list rest + k)) [0..<m]))
                        [0..<prod_list rest]\<rparr>)"

text \<open>\<^verbatim>\<open>np.squeeze(a)\<close> drops every axis of length 1.\<close>

definition squeeze :: "ndarray \<Rightarrow> ndarray" where
  "squeeze a = a\<lparr>shape := filter (\<lambda>d. d \<noteq> 1) (shape a)\<rparr>"

text \<open>\<^verbatim>\<open>a / m\<close> for an integer \<open>m\<close>: numpy divides elementwise; by zero it yields \<^verbatim>\<open>inf\<close> or
  \<^verbatim>\<open>nan\<close> for every element there is.\<close>

definition div_scalar :: "ndarray \<Rightarrow> nat \<Rightarrow> py_error + ndarray" where
  "div_scalar a m =
     (if m = 0 \<and> data a \<noteq> [] then Inl NonFinite
      else Inr (a\<lparr>data := map (\<lambda>x. x / real m) (data a)\<rparr>))"

text \<open>\<^verbatim>\<open>c * a\<close> for a scalar \<open>c\<close>.\<close>

definition scalar_mul :: "real \<Rightarrow> ndarray \<Rightarrow> ndarray" where
  "scalar_mul c a = a\<lparr>data := map (\<lambda>x. c * x) (data a)\<rparr>"

text \<open>Every row of a matrix repeated \<open>k\<close> times in place (\<^verbatim>\<open>np.repeat(a, k, axis=0)\<close>): the
  batch in which each sample occurs \<open>k\<close> times.\<close>

definition repeat_rows :: "nat \<Rightarrow> ndarray \<Rightarrow> ndarray" where
  "repeat_rows k a = tabulate2 (hd (shape a) * k) (shape a ! 1) (\<lambda>i j. at2 a (i div k) j)"

text \<open>Arrays of rank 3 and 4, indexed and built like matrices.\<close>

definition at3 :: "ndarray \<Rightarrow> nat \<Rightarrow> nat \<Rightarrow> nat \<Rightarrow> real" where
  "at3 a i j k = data a ! ((i * (shape a ! 1) + j) * (shape a ! 2) + k)"

definition at4 :: "ndarray \<Rightarrow> nat \<Rightarrow> nat \<Rightarrow> nat \<Rightarrow> nat \<Rightarrow> real" where
  "at4 a i j k l = data a ! (((i * (shape a ! 1) + j) * (shape a ! 2) + k) * (shape a ! 3) + l)"

definition tabulate3 :: "nat \<Rightarrow> nat \<Rightarrow> nat \<Rightarrow> (nat \<Rightarrow> nat \<Rightarrow> nat \<Rightarrow> real) \<Rightarrow> ndarray" where
  "tabulate3 n0 n1 n2 f =
     \<lparr>shape = [n0, n1, n2],
      data = concat (map (\<lambda>i. concat (map (\<lambda>j. map (f i j) [0..<n2]) [0..<n1])) [0..<n0])\<rparr>"

definition tabulate4 ::
  "nat \<Rightarrow> nat \<Rightarrow> nat \<Rightarrow> nat \<Rightarrow> (nat \<Rightarrow> nat \<Rightarrow> nat \<Rightarrow> nat \<Rightarrow> real) \<Rightarrow> ndarray" where
  "tabulate4 n0 n1 n2 n3 f =
     \<lparr>shape = [n0, n1, n2, n3],
      data = concat (map (\<lambda>i. concat (map (\<lambda>j. concat (map (\<lambda>k. map (f i j k) [0..<n3])
                 [0..<n2])) [0..<n1])) [0..<n0])\<rparr>"

text \<open>\<^verbatim>\<open>np.zeros(shape=sh)\<close>; a negative dimension is refused.\<close>

definition np_zeros :: "int list \<Rightarrow> py_error + ndarray" where
  "np_zeros sh =
     (if \<exists>d\<in>set sh. d < 0 then Inl ValueError
      else Inr \<lparr>shape = map nat sh, data = replicate (prod_list (map nat sh)) 0\<rparr>)"

text \<open>\<^verbatim>\<open>a[i]\<close> for \<open>i \<ge> 0\<close>: the \<open>i\<close>-th block along the first axis.\<close>

definition index_first :: "ndarray \<Rightarrow> nat \<Rightarrow> py_error + ndarray" where
  "index_first a i =
     (case shape a of
        [] \<Rightarrow> Inl IndexError
      | n # rest \<Rightarrow>
          if i < n
          then Inr \<lparr>shape = rest,
                   data = take (prod_list rest) (drop (i * prod_list rest) (data a))\<rparr>
          else Inl IndexError)"

text \<open>The index range \<open>[lo, hi)\<close> that the Python slice \<^verbatim>\<open>start:stop\<close> selects on an axis of
  length \<open>n\<close>: a negative bound counts from the end, and both bounds are clamped to the
  axis. The slice is empty when \<open>hi \<le> lo\<close>.\<close>

definition py_slice :: "int \<Rightarrow> int \<Rightarrow> nat \<Rightarrow> nat \<times> nat" where
  "py_slice start stop n =
     (let lo = (if start < 0 then max 0 (start + int n) else min start (int n));
          hi = (if stop < 0 then max 0 (stop + int n) else min stop (int n))
      in (nat lo, nat hi))"

text \<open>\<^verbatim>\<open>x[v0:v1, h0:h1, :]\<close> on an array of rank 3.\<close>

definition slice3 :: "ndarray \<Rightarrow> int \<times> int \<Rightarrow> int \<times> int \<Rightarrow> py_error + ndarray" where
  "slice3 x v h =
     (case shape x of
        [H, W, C] \<Rightarrow>
          (let (v0, v1) = py_slice (fst v) (snd v) H; (h0, h1) = py_slice (fst h) (snd h) W
           in Inr (tabulate3 (v1 - v0) (h1 - h0) C (\<lambda>a b c. at3 x (v0 + a) (h0 + b) c)))
      | _ \<Rightarrow> Inl Unmodelled)"

text \<open>\<^verbatim>\<open>a[:, :, :, c]\<close> on an array of rank 4, for \<open>c \<ge> 0\<close>.\<close>

definition select_last :: "ndarray \<Rightarrow> nat \<Rightarrow> py_error + ndarray" where
  "select_last a c =
     (case shape a of
        [n0, n1, n2, n3] \<Rightarrow>
          if c < n3 then Inr (tabulate3 n0 n1 n2 (\<lambda>i j k. at4 a i j k c)) else Inl IndexError
      | _ \<Rightarrow> Inl Unmodelled)"

text \<open>\<^verbatim>\<open>np.multiply(a, b)\<close> on two arrays of rank 3, with broadcasting.\<close>

definition np_multiply :: "ndarray \<Rightarrow> ndarray \<Rightarrow> py_error + ndarray" where
  "np_multiply a b =
     (case (shape a, shape b) of
        ([a0, a1, a2], [b0, b1, b2]) \<Rightarrow>
          (case (bdim a0 b0, bdim a1 b1, bdim a2 b2) of
             (Some d0, Some d1, Some d2) \<Rightarrow>
               Inr (tabulate3 d0 d1 d2 (\<lambda>i j k.
                      at3 a (bidx a0 i) (bidx a1 j) (bidx a2 k)
                    * at3 b (bidx b0 i) (bidx b1 j) (bidx b2 k)))
           | _ \<Rightarrow> Inl ValueError)
      | _ \<Rightarrow> Inl Unmodelled)"

text \<open>\<^verbatim>\<open>np.sum(a)\<close>, and \<^verbatim>\<open>float(a)\<close>, which only an array of one element allows.\<close>

definition np_sum :: "ndarray \<Rightarrow> real" where
  "np_sum a = sum_list (data a)"

definition py_float :: "ndarray \<Rightarrow> py_error + real" where
  "py_float a = (case data a of [v] \<Rightarrow> Inr v | _ \<Rightarrow> Inl TypeError)"

text \<open>\<^verbatim>\<open>Z[i, h, w, c] = v\<close> on an array of rank 4, for indices \<open>\<ge> 0\<close>.\<close>

definition set4 :: "ndarray \<Rightarrow> nat \<Rightarrow> nat \<Rightarrow> nat \<Rightarrow> nat \<Rightarrow> real \<Rightarrow> py_error + ndarray" where
  "set4 Z i h w c v =
     (case shape Z of
        [n0, n1, n2, n3] \<Rightarrow>
          if i < n0 \<and> h < n1 \<and> w < n2 \<and> c < n3
          then Inr (Z\<lparr>data := (data Z)[((i * n1 + h) * n2 + w) * n3 + c := v]\<rparr>)
          else Inl IndexError
      | _ \<Rightarrow> Inl Unmodelled)"

text \<open>\<^verbatim>\<open>a -= b\<close> on two matrices or two arrays of rank 4: \<open>b\<close> is broadcast to the
  shape of \<open>a\<close>, which does not change; the result is the new value of \<open>a\<close>.\<close>

definition isub :: "ndarray \<Rightarrow> ndarray \<Rightarrow> py_error + ndarray" where
  "isub a b =
     (case (shape a, shape b) of
        ([m, n], [p, q]) \<Rightarrow>
          if (p = m \<or> p = 1) \<and> (q = n \<or> q = 1)
          then Inr (tabulate2 m n (\<lambda>i j. at2 a i j - at2 b (bidx p i) (bidx q j)))
          else Inl ValueError
      | ([n0, n1, n2, n3], [m0, m1, m2, m3]) \<Rightarrow>
          if (m0 = n0 \<or> m0 = 1) \<and> (m1 = n1 \<or> m1 = 1) \<and> (m2 = n2 \<or> m2 = 1) \<and> (m3 = n3 \<or> m3 = 1)
          then Inr (tabulate4 n0 n1 n2 n3 (\<lambda>i j k l.
                 at4 a i j k l - at4 b (bidx m0 i) (bidx m1 j) (bidx m2 k) (bidx m3 l)))
          else Inl ValueError
      | _ \<Rightarrow> Inl Unmodelled)"

text \<open>\<^verbatim>\<open>a[i, h, w, c]\<close> on an array of rank 4, for indices \<open>\<ge> 0\<close>.\<close>

definition get4 :: "ndarray \<Rightarrow> nat \<Rightarrow> nat \<Rightarrow> nat \<Rightarrow> nat \<Rightarrow> py_error + real" where
  "get4 a i h w c =
     (case shape a of
        [n0, n1, n2, n3] \<Rightarrow>
          if i < n0 \<and> h < n1 \<and> w < n2 \<and> c < n3 then Inr (at4 a i h w c) else Inl IndexError
      | _ \<Rightarrow> if length (shape a) < 4 then Inl IndexError else Inl Unmodelled)"

text \<open>\<^verbatim>\<open>np.zeros_like(a)\<close>.\<close>

definition zeros_like :: "ndarray \<Rightarrow> ndarray" where
  "zeros_like a = a\<lparr>data := replicate (length (data a)) 0\<rparr>"

text \<open>\<^verbatim>\<open>x[v0:v1, h0:h1, :] += y\<close> on arrays of rank 3: \<open>y\<close> is broadcast to the shape of
  the slice; the result is the new value of \<open>x\<close>.\<close>

definition iadd_slice3 :: "ndarray \<Rightarrow> int \<times> int \<Rightarrow> int \<times> int \<Rightarrow> ndarray \<Rightarrow> py_error + ndarray" where
  "iadd_slice3 x v h y =
     (case (shape x, shape y) of
        ([H, W, C], [y0, y1, y2]) \<Rightarrow>
          (let (v0, v1) = py_slice (fst v) (snd v) H; (h0, h1) = py_slice (fst h) (snd h) W
           in if (y0 = v1 - v0 \<or> y0 = 1) \<and> (y1 = h1 - h0 \<or> y1 = 1) \<and> (y2 = C \<or> y2 = 1)
              then Inr (tabulate3 H W C (\<lambda>a b c.
                     if v0 \<le> a \<and> a < v1 \<and> h0 \<le> b \<and> b < h1
                     then at3 x a b c + at3 y (bidx y0 (a - v0)) (bidx y1 (b - h0)) (bidx y2 c)
                     else at3 x a b c))
              else Inl ValueError)
      | _ \<Rightarrow> Inl Unmodelled)"

text \<open>\<^verbatim>\<open>a[:, :, :, c] += y\<close> for \<open>a\<close> of rank 4 and \<open>y\<close> of rank 3, and for a scalar.\<close>

definition iadd_last :: "ndarray \<Rightarrow> nat \<Rightarrow> ndarray \<Rightarrow> py_error + ndarray" where
  "iadd_last a c y =
     (case (shape a, shape y) of
        ([n0, n1, n2, n3], [y0, y1, y2]) \<Rightarrow>
          if \<not> c < n3 then Inl IndexError
          else if (y0 = n0 \<or> y0 = 1) \<and> (y1 = n1 \<or> y1 = 1) \<and> (y2 = n2 \<or> y2 = 1)
          then Inr (tabulate4 n0 n1 n2 n3 (\<lambda>i j k l.
                 if l = c then at4 a i j k l + at3 y (bidx y0 i) (bidx y1 j) (bidx y2 k)
                 else at4 a i j k l))
          else Inl ValueError
      | _ \<Rightarrow> Inl Unmodelled)"

definition iadd_last_scalar :: "ndarray \<Rightarrow> nat \<Rightarrow> real \<Rightarrow> py_error + ndarray" where
  "iadd_last_scalar a c v =
     (case shape a of
        [n0, n1, n2, n3] \<Rightarrow>
          if \<not> c < n3 then Inl IndexError
          else Inr (tabulate4 n0 n1 n2 n3 (\<lambda>i j k l.
                 if l = c then at4 a i j k l + v else at4 a i j k l))
      | _ \<Rightarrow> Inl Unmodelled)"

text \<open>\<^verbatim>\<open>a[i, :, :, :] = y\<close> for \<open>a\<close> of rank 4 and \<open>y\<close> of rank 3, broadcast to the block.\<close>

definition set_first :: "ndarray \<Rightarrow> nat \<Rightarrow> ndarray \<Rightarrow> py_error + ndarray" where
  "set_first a i y =
     (case (shape a, shape y) of
        ([n0, n1, n2, n3], [y0, y1, y2]) \<Rightarrow>
          if \<not> i < n0 then Inl IndexError
          else if (y0 = n1 \<or> y0 = 1) \<and> (y1 = n2 \<or> y1 = 1) \<and> (y2 = n3 \<or> y2 = 1)
          then Inr (tabulate4 n0 n1 n2 n3 (\<lambda>i' j k l.
                 if i' = i then at3 y (bidx y0 j) (bidx y1 k) (bidx y2 l) else at4 a i' j k l))
          else Inl ValueError
      | _ \<Rightarrow> Inl Unmodelled)"

text \<open>\<^verbatim>\<open>int(a / b)\<close> for integers: true division, then truncation toward zero. (Python
  divides as floating point; the quotient is exact for the magnitudes array dimensions
  have.)\<close>

definition truncated_quotient :: "int \<Rightarrow> int \<Rightarrow> int" where
  "truncated_quotient a b =
     (if (a < 0) = (b < 0) then \<bar>a\<bar> div \<bar>b\<bar> else - (\<bar>a\<bar> div \<bar>b\<bar>))"

definition int_truediv :: "int \<Rightarrow> int \<Rightarrow> py_error + int" where
  "int_truediv a b = (if b = 0 then Inl ZeroDivisionError else Inr (truncated_quotient a b))"

text \<open>A \<^verbatim>\<open>for\<close> loop over a list whose body updates a state and may raise.\<close>

fun for_each :: "'a list \<Rightarrow> ('a \<Rightarrow> 's \<Rightarrow> py_error + 's) \<Rightarrow> 's \<Rightarrow> py_error + 's" where
  "for_each [] body s = Inr s"
| "for_each (x # xs) body s =
     (case body x s of Inl e \<Rightarrow> Inl e | Inr s1 \<Rightarrow> for_each xs body s1)"

text \<open>The same loop when the state the body had reached is kept as an exception leaves
  it: the attributes of the layer that the body mutates in place.\<close>

fun for_each_state ::
  "'a list \<Rightarrow> ('a \<Rightarrow> 's \<Rightarrow> py_error option \<times> 's) \<Rightarrow> 's \<Rightarrow> py_error option \<times> 's" where
  "for_each_state [] body s = (None, s)"
| "for_each_state (x # xs) body s =
     (case body x s of
        (Some e, s1) \<Rightarrow> (Some e, s1)
      | (None, s1) \<Rightarrow> for_each_state xs body s1)"

subsection \<open>The helpers of \<^verbatim>\<open>utils\<close>\<close>

text \<open>
  Modelled from the spec: \<^verbatim>\<open>utils.pad_inputs\<close> is not among the sources. The spec: given
  a tensor and a \<^verbatim>\<open>(pad_h, pad_w)\<close> pair, it returns a zero-padded copy with padding applied
  to the two spatial axes only (not batch or channel axes), the same amount on both sides
  of an axis. A negative amount is refused, as numpy's padding does.
\<close>

definition pad_inputs :: "ndarray \<Rightarrow> int \<times> int \<Rightarrow> py_error + ndarray" where
  "pad_inputs X p =
     (case shape X of
        [n, H, W, C] \<Rightarrow>
          if fst p < 0 \<or> snd p < 0 then Inl ValueError
          else
            (let ph = nat (fst p); pw = nat (snd p)
             in Inr (tabulate4 n (H + 2 * ph) (W + 2 * pw) C (\<lambda>i h w c.
                  if ph \<le> h \<and> h < ph + H \<and> pw \<le> w \<and> w < pw + W
                  then at4 X i (h - ph) (w - pw) c else 0)))
      | _ \<Rightarrow> Inl Unmodelled)"

text \<open>
  Modelled from the spec: \<^verbatim>\<open>utils.glorot_uniform\<close> is not among the sources. The spec:
  given a 4-D shape it returns \<^verbatim>\<open>(W, b)\<close>, the filter weights of that shape and a bias of
  shape 1\<times>1\<times>1\<times>filters, drawn at random. The random draw is the parameter \<open>draw\<close>: its
  first component gives the elements of \<open>W\<close>, its second those of \<open>b\<close>. The range the
  initializer draws from is not described: what is proved for every draw holds for the
  draws it makes.
\<close>

definition glorot_uniform :: "(nat \<Rightarrow> real) \<times> (nat \<Rightarrow> real) \<Rightarrow> nat list \<Rightarrow> ndarray \<times> ndarray" where
  "glorot_uniform draw sh =
     (\<lparr>shape = sh, data = map (fst draw) [0..<prod_list sh]\<rparr>,
      \<lparr>shape = [1, 1, 1, last sh], data = map (snd draw) [0..<last sh]\<rparr>)"

section \<open>The layers\<close>

text \<open>The base class: \<^verbatim>\<open>Layer.__init__\<close> sets \<^verbatim>\<open>input\<close> and \<^verbatim>\<open>output\<close> to \<^verbatim>\<open>None\<close>
  (the field \<open>output_val\<close> is the attribute \<^verbatim>\<open>output\<close>).
  \<open>None\<close> also stands for an attribute that was never assigned: reading an attribute of
  either raises \<^verbatim>\<open>AttributeError\<close>.\<close>

record Layer =
  input :: "ndarray option"
  output_val :: "ndarray option"

subsection \<open>ActivationLayer\<close>

text \<open>The two functions are supplied by the caller and may raise. \<^verbatim>\<open>a * b\<close> multiplies
  elementwise; only operands of equal shapes are described here.\<close>

record ActivationLayer = Layer +
  activation :: "ndarray \<Rightarrow> py_error + ndarray"
  activation_grad :: "ndarray \<Rightarrow> py_error + ndarray"

definition broadcastable :: "nat list \<Rightarrow> nat list \<Rightarrow> bool" where
  "broadcastable sh1 sh2 \<longleftrightarrow>
     list_all (\<lambda>(m, n). m = n \<or> m = 1 \<or> n = 1) (zip (rev sh1) (rev sh2))"

definition np_times :: "ndarray \<Rightarrow> ndarray \<Rightarrow> py_error + ndarray" where
  "np_times a b =
     (if shape a = shape b
      then Inr \<lparr>shape = shape a, data = map (\<lambda>(x, y). x * y) (zip (data a) (data b))\<rparr>
      else if broadcastable (shape a) (shape b) then Inl Unmodelled
      else Inl ValueError)"

definition ActivationLayer_forward ::
  "ActivationLayer \<Rightarrow> ndarray \<Rightarrow> (py_error + ndarray) \<times> ActivationLayer" where
  "ActivationLayer_forward self input_data =
     (let self1 = self\<lparr>input := Some input_data\<rparr>
      in case activation self1 input_data of
           Inl e \<Rightarrow> (Inl e, self1)
         | Inr out \<Rightarrow> (Inr out, self1\<lparr>output_val := Some out\<rparr>))"

definition ActivationLayer_backward ::
  "ActivationLayer \<Rightarrow> ndarray \<Rightarrow> real \<Rightarrow> (py_error + ndarray) \<times> ActivationLayer" where
  "ActivationLayer_backward self dY learning_rate =
     (case input self of
        None \<Rightarrow> (Inl AttributeError, self)
      | Some X \<Rightarrow> (then_do (activation_grad self X) (\<lambda>g. np_times g dY), self))"

subsection \<open>Flatten\<close>

definition Flatten_forward :: "Layer \<Rightarrow> ndarray \<Rightarrow> (py_error + ndarray) \<times> Layer" where
  "Flatten_forward self X =
     (let self1 = self\<lparr>input := Some X\<rparr>
      in case shape X of
           [] \<Rightarrow> (Inl IndexError, self1)
         | samples # _ \<Rightarrow> (reshape_infer X samples, self1))"

definition Flatten_backward :: "Layer \<Rightarrow> ndarray \<Rightarrow> real \<Rightarrow> (py_error + ndarray) \<times> Layer" where
  "Flatten_backward self dY learning_rate =
     (case input self of
        None \<Rightarrow> (Inl AttributeError, self)
      | Some X \<Rightarrow> (reshape dY (shape X), self))"

subsection \<open>FC\<close>

text \<open>\<^verbatim>\<open>FC.__init__\<close> draws the weights (input_size \<times> output_size) and the bias
  (1 \<times> output_size) at random; they are the fields of the record. It does not call
  \<^verbatim>\<open>Layer.__init__\<close>, so \<open>input\<close> is unassigned until \<open>FC_forward\<close> runs.\<close>

record FC = Layer +
  weights :: ndarray
  bias :: ndarray

definition FC_forward :: "FC \<Rightarrow> ndarray \<Rightarrow> (py_error + ndarray) \<times> FC" where
  "FC_forward self input_data =
     (let self1 = self\<lparr>input := Some input_data\<rparr>
      in case then_do (np_dot input_data (weights self1)) (\<lambda>d. np_add d (bias self1)) of
           Inl e \<Rightarrow> (Inl e, self1)
         | Inr out \<Rightarrow> (Inr out, self1\<lparr>output_val := Some out\<rparr>))"

text \<open>The local \<^verbatim>\<open>dW = np.dot(self.input.T, dY)/m\<close> of \<^verbatim>\<open>FC.backward\<close>.\<close>

definition FC_dW :: "ndarray \<Rightarrow> ndarray \<Rightarrow> nat \<Rightarrow> py_error + ndarray" where
  "FC_dW X dY m = then_do (then_do (array_T X) (\<lambda>XT. np_dot XT dY)) (\<lambda>p. div_scalar p m)"

text \<open>The local
  \<^verbatim>\<open>dB = np.squeeze(np.sum(dY, axis=0, keepdims=True)).reshape(1,dY.shape[1])/m\<close>.\<close>

definition FC_dB :: "ndarray \<Rightarrow> nat \<Rightarrow> py_error + ndarray" where
  "FC_dB dY m =
     then_do (sum_axis0_keepdims dY) (\<lambda>s.
       case shape dY of
         _ # n # _ \<Rightarrow> then_do (reshape (squeeze s) [1, n]) (\<lambda>r. div_scalar r m)
       | _ \<Rightarrow> Inl IndexError)"

definition FC_backward :: "FC \<Rightarrow> ndarray \<Rightarrow> real \<Rightarrow> (py_error + ndarray) \<times> FC" where
  "FC_backward self dY learning_rate =
     (case shape dY of
        [] \<Rightarrow> (Inl TypeError, self)
      | m # _ \<Rightarrow>
        (case then_do (array_T (weights self)) (np_dot dY) of
           Inl e \<Rightarrow> (Inl e, self)
         | Inr grad \<Rightarrow>
           (case input self of
              None \<Rightarrow> (Inl AttributeError, self)
            | Some X \<Rightarrow>
              (case FC_dW X dY m of
                 Inl e \<Rightarrow> (Inl e, self)
               | Inr dW \<Rightarrow>
                 (case FC_dB dY m of
                    Inl e \<Rightarrow> (Inl e, self)
                  | Inr dB \<Rightarrow>
                    (case isub (weights self) (scalar_mul learning_rate dW) of
                       Inl e \<Rightarrow> (Inl e, self)
                     | Inr W1 \<Rightarrow>
                       (let self1 = self\<lparr>weights := W1\<rparr>
                        in case isub (bias self1) (scalar_mul learning_rate dB) of
                             Inl e \<Rightarrow> (Inl e, self1)
                           | Inr b1 \<Rightarrow> (Inr grad, self1\<lparr>bias := b1\<rparr>))))))))"

subsection \<open>Conv_layer\<close>

text \<open>
  The configuration that \<^verbatim>\<open>Conv_layer.__init__\<close> stores, and the attributes that
  \<^verbatim>\<open>forward\<close> and \<^verbatim>\<open>backward\<close> assign later (\<open>None\<close> until then). Counts and lengths
  are natural numbers and the kernel shape is a pair.
\<close>

record Conv_layer = Layer +
  stride :: nat
  kernel_shape :: "nat \<times> nat"
  padding :: string
  filters :: nat
  self_W :: "ndarray option"
  self_b :: "ndarray option"
  self_pad_h :: "int option"
  self_pad_w :: "int option"
  self_A :: "ndarray option"
  self_dW :: "ndarray option"
  self_db :: "ndarray option"

text \<open>\<^verbatim>\<open>Conv_layer.__init__(filters, kernel_shape, padding, stride)\<close>.\<close>

definition Conv_layer_init :: "nat \<Rightarrow> nat \<times> nat \<Rightarrow> string \<Rightarrow> nat \<Rightarrow> Conv_layer" where
  "Conv_layer_init nfilters ksh pad strd =
     \<lparr>input = None, output_val = None, stride = strd, kernel_shape = ksh, padding = pad,
      filters = nfilters, self_W = None, self_b = None, self_pad_h = None, self_pad_w = None,
      self_A = None, self_dW = None, self_db = None\<rparr>"

definition conv_single_step :: "ndarray \<Rightarrow> ndarray \<Rightarrow> ndarray \<Rightarrow> py_error + real" where
  "conv_single_step inp W b =
     then_do (np_multiply inp W) (\<lambda>p. then_do (py_float b) (\<lambda>f. Inr (np_sum p + f)))"

text \<open>The four nested loops of \<^verbatim>\<open>Conv_layer.forward\<close>, over samples, output rows, output
  columns and filters.\<close>

definition forward_loops ::
  "nat \<Rightarrow> nat \<times> nat \<Rightarrow> nat \<Rightarrow> nat \<Rightarrow> nat \<Rightarrow> nat \<Rightarrow> ndarray \<Rightarrow> ndarray \<Rightarrow> ndarray \<Rightarrow> ndarray
     \<Rightarrow> py_error + ndarray" where
  "forward_loops strd ksh samples n_H n_W nfilters X_pad W b Z0 =
     for_each [0..<samples] (\<lambda>i Z.
       then_do (index_first X_pad i) (\<lambda>x.
         for_each [0..<n_H] (\<lambda>h Z.
           for_each [0..<n_W] (\<lambda>w Z.
             let vert_start = strd * h;
                 vert_end = vert_start + fst ksh;
                 horiz_start = strd * w;
                 horiz_end = horiz_start + snd ksh
             in for_each [0..<nfilters] (\<lambda>c Z.
                  then_do (slice3 x (int vert_start, int vert_end) (int horiz_start, int horiz_end))
                    (\<lambda>x_slice.
                  then_do (select_last W c) (\<lambda>Wc.
                  then_do (select_last b c) (\<lambda>bc.
                  then_do (conv_single_step x_slice Wc bc) (\<lambda>v.
                  set4 Z i h w c v))))) Z) Z) Z)) Z0"

text \<open>The padding amounts and the output dimensions that \<^verbatim>\<open>Conv_layer.forward\<close> computes
  from the padding mode, the stride, the input's spatial dimensions and the kernel shape
  (the \<^verbatim>\<open>if self.padding == 'same'\<close> statement): \<^verbatim>\<open>(pad_h, pad_w, n_H, n_W)\<close>.\<close>

definition output_geometry ::
  "string \<Rightarrow> nat \<Rightarrow> nat \<times> nat \<Rightarrow> nat \<times> nat \<Rightarrow> py_error + (int \<times> int \<times> int \<times> int)" where
  "output_geometry pad strd prev ksh =
     (let (prev_height, prev_width) = prev; (filter_shape_h, filter_shape_w) = ksh
      in if pad = ''same''
         then
           then_do (int_truediv ((int prev_height - 1) * int strd
                      + int filter_shape_h - int prev_height) 2) (\<lambda>pad_h.
           then_do (int_truediv ((int prev_width - 1) * int strd
                      + int filter_shape_w - int prev_width) 2) (\<lambda>pad_w.
           Inr (pad_h, pad_w, int prev_height, int prev_width)))
         else
           then_do (int_truediv (int prev_height - int filter_shape_h) (int strd)) (\<lambda>qh.
           then_do (int_truediv (int prev_width - int filter_shape_w) (int strd)) (\<lambda>qw.
           Inr (0, 0, qh + 1, qw + 1))))"

definition Conv_layer_forward ::
  "Conv_layer \<Rightarrow> (nat \<Rightarrow> real) \<times> (nat \<Rightarrow> real) \<Rightarrow> ndarray \<Rightarrow> (py_error + ndarray) \<times> Conv_layer" where
  "Conv_layer_forward self draw X =
     (case shape X of
        [samples, prev_height, prev_width, prev_channels] \<Rightarrow>
          (let (filter_shape_h, filter_shape_w) = kernel_shape self;
               shp = [filter_shape_h, filter_shape_w, prev_channels, filters self];
               (W, b) = glorot_uniform draw shp;
               self1 = self\<lparr>self_W := Some W, self_b := Some b\<rparr>
           in case output_geometry (padding self) (stride self) (prev_height, prev_width)
                     (filter_shape_h, filter_shape_w) of
                Inl e \<Rightarrow> (Inl e, self1)
              | Inr (pad_h, pad_w, n_H, n_W) \<Rightarrow>
                  (case np_zeros [int samples, n_H, n_W, int (filters self)] of
                     Inl e \<Rightarrow> (Inl e, self1)
                   | Inr Z \<Rightarrow>
                       (let self2 = self1\<lparr>self_pad_h := Some pad_h, self_pad_w := Some pad_w\<rparr>
                        in case then_do (pad_inputs X (pad_h, pad_w)) (\<lambda>X_pad.
                                  forward_loops (stride self) (filter_shape_h, filter_shape_w)
                                    samples (nat n_H) (nat n_W) (filters self) X_pad W b Z) of
                             Inl e \<Rightarrow> (Inl e, self2)
                           | Inr Z1 \<Rightarrow> (Inr Z1, self2\<lparr>self_A := Some X\<rparr>))))
      | _ \<Rightarrow> (Inl ValueError, self))"

text \<open>
  Attribute lookup on a \<^verbatim>\<open>Conv_layer\<close> instance: the attributes assigned on the instance,
  then the names defined in the body of \<^verbatim>\<open>class Conv_layer\<close>, then those of its base
  \<^verbatim>\<open>class Layer\<close>. (The attributes every Python object has are all named \<^verbatim>\<open>__x__\<close>.)
\<close>

definition Layer_methods :: "string list" where
  "Layer_methods = [''__init__'', ''forward'', ''backward'']"

definition Conv_layer_methods :: "string list" where
  "Conv_layer_methods = [''__init__'', ''conv_single_step'', ''forward'', ''backward'']"

definition instance_attributes :: "Conv_layer \<Rightarrow> string list" where
  "instance_attributes self =
     [''stride'', ''kernel_shape'', ''padding'', ''filters'']
     @ (if self_W self = None then [] else [''W''])
     @ (if self_b self = None then [] else [''b''])
     @ (if self_pad_h self = None then [] else [''pad_h''])
     @ (if self_pad_w self = None then [] else [''pad_w''])
     @ (if self_A self = None then [] else [''A''])
     @ (if self_dW self = None then [] else [''dW''])
     @ (if self_db self = None then [] else [''db''])"

definition has_attribute :: "Conv_layer \<Rightarrow> string \<Rightarrow> bool" where
  "has_attribute self name \<longleftrightarrow>
     name \<in> set (instance_attributes self @ Conv_layer_methods @ Layer_methods)"

text \<open>The sample loop of \<^verbatim>\<open>Conv_layer.backward\<close> with its three inner loops. The state of
  the sample loop is \<open>(dA, W, b, dW, db)\<close>, that of the inner loops \<open>(da_pad, dW, db)\<close>:
  \<^verbatim>\<open>self.W\<close>, \<^verbatim>\<open>self.b\<close>, \<^verbatim>\<open>self.dW\<close> and \<^verbatim>\<open>self.db\<close> are mutated in place, and
  \<^verbatim>\<open>da_pad\<close> is a view of \<^verbatim>\<open>dA_pad[i]\<close> that nothing else reads.\<close>

definition backward_loops ::
  "nat \<Rightarrow> nat \<times> nat \<Rightarrow> int \<times> int \<Rightarrow> real \<Rightarrow> nat \<Rightarrow> nat \<Rightarrow> nat \<Rightarrow> nat
     \<Rightarrow> ndarray \<Rightarrow> ndarray \<Rightarrow> ndarray
     \<Rightarrow> ndarray \<times> ndarray \<times> ndarray \<times> ndarray \<times> ndarray
     \<Rightarrow> py_error option \<times> ndarray \<times> ndarray \<times> ndarray \<times> ndarray \<times> ndarray" where
  "backward_loops strd ksh pad learning_rate samples prev_height prev_width nfilters
       A_pad dA_pad dY st0 =
     for_each_state [0..<samples] (\<lambda>i (dA, W, b, dW, db).
       case index_first A_pad i of
         Inl e \<Rightarrow> (Some e, (dA, W, b, dW, db))
       | Inr a_pad \<Rightarrow>
       (case index_first dA_pad i of
          Inl e \<Rightarrow> (Some e, (dA, W, b, dW, db))
        | Inr da_pad0 \<Rightarrow>
        (case for_each_state [0..<prev_height] (\<lambda>h.
                for_each_state [0..<prev_width] (\<lambda>w.
                  let vert_start = strd * h;
                      vert_end = vert_start + fst ksh;
                      horiz_start = strd * w;
                      horiz_end = horiz_start + snd ksh
                  in for_each_state [0..<nfilters] (\<lambda>c (da_pad, dW, db).
                       case slice3 a_pad (int vert_start, int vert_end)
                              (int horiz_start, int horiz_end) of
                         Inl e \<Rightarrow> (Some e, (da_pad, dW, db))
                       | Inr a_slice \<Rightarrow>
                       (case then_do (select_last W c) (\<lambda>Wc.
                             then_do (get4 dY i h w c) (\<lambda>g.
                             iadd_slice3 da_pad (int vert_start, int vert_end)
                               (int horiz_start, int horiz_end) (scalar_mul g Wc))) of
                          Inl e \<Rightarrow> (Some e, (da_pad, dW, db))
                        | Inr da_pad1 \<Rightarrow>
                        (case then_do (get4 dY i h w c) (\<lambda>g.
                              iadd_last dW c (scalar_mul g a_slice)) of
                           Inl e \<Rightarrow> (Some e, (da_pad1, dW, db))
                         | Inr dW1 \<Rightarrow>
                         (case then_do (get4 dY i h w c) (iadd_last_scalar db c) of
                            Inl e \<Rightarrow> (Some e, (da_pad1, dW1, db))
                          | Inr db1 \<Rightarrow> (None, (da_pad1, dW1, db1))))))))
              (da_pad0, dW, db) of
           (Some e, (da_pad, dW1, db1)) \<Rightarrow> (Some e, (dA, W, b, dW1, db1))
         | (None, (da_pad, dW1, db1)) \<Rightarrow>
           (case then_do (slice3 da_pad (fst pad, - fst pad) (snd pad, - snd pad))
                   (set_first dA i) of
              Inl e \<Rightarrow> (Some e, (dA, W, b, dW1, db1))
            | Inr dA1 \<Rightarrow>
              (case isub W (scalar_mul learning_rate dW1) of
                 Inl e \<Rightarrow> (Some e, (dA1, W, b, dW1, db1))
               | Inr W1 \<Rightarrow>
                 (case isub b (scalar_mul learning_rate db1) of
                    Inl e \<Rightarrow> (Some e, (dA1, W1, b, dW1, db1))
                  | Inr b1 \<Rightarrow> (None, (dA1, W1, b1, dW1, db1)))))))) st0"

text \<open>The statements of \<^verbatim>\<open>Conv_layer.backward\<close> that follow the call of
  \<^verbatim>\<open>self.init_cache()\<close>, from \<^verbatim>\<open>self.dW = np.zeros_like(self.W)\<close> to \<^verbatim>\<open>return dA\<close>.\<close>

definition backward_gradients ::
  "Conv_layer \<Rightarrow> ndarray \<Rightarrow> ndarray \<Rightarrow> int \<times> int \<Rightarrow> ndarray \<Rightarrow> real
     \<Rightarrow> (py_error + ndarray) \<times> Conv_layer" where
  "backward_gradients self A dA pad dY learning_rate =
     (case self_W self of
        None \<Rightarrow> (Inl AttributeError, self)
      | Some W \<Rightarrow>
        (let self1 = self\<lparr>self_dW := Some (zeros_like W)\<rparr>
         in case self_b self1 of
              None \<Rightarrow> (Inl AttributeError, self1)
            | Some b \<Rightarrow>
              (let self2 = self1\<lparr>self_db := Some (zeros_like b)\<rparr>
               in case pad_inputs A pad of
                    Inl e \<Rightarrow> (Inl e, self2)
                  | Inr A_pad \<Rightarrow>
                    (case pad_inputs dA pad of
                       Inl e \<Rightarrow> (Inl e, self2)
                     | Inr dA_pad \<Rightarrow>
                       (case backward_loops (stride self) (kernel_shape self) pad learning_rate
                               (shape A ! 0) (shape A ! 1) (shape A ! 2) (filters self)
                               A_pad dA_pad dY (dA, W, b, zeros_like W, zeros_like b) of
                          (err, (dA1, W1, b1, dW1, db1)) \<Rightarrow>
                            (case err of Some e \<Rightarrow> Inl e | None \<Rightarrow> Inr dA1,
                             self2\<lparr>self_W := Some W1, self_b := Some b1,
                                   self_dW := Some dW1, self_db := Some db1\<rparr>))))))"

text \<open>\<^verbatim>\<open>Conv_layer.backward\<close>. The call \<^verbatim>\<open>self.init_cache()\<close> first looks the attribute up;
  were it found, the call would be into code that does not exist, and the statements
  after it are \<open>backward_gradients\<close>.\<close>

definition Conv_layer_backward ::
  "Conv_layer \<Rightarrow> ndarray \<Rightarrow> real \<Rightarrow> (py_error + ndarray) \<times> Conv_layer" where
  "Conv_layer_backward self dY learning_rate =
     (case self_A self of
        None \<Rightarrow> (Inl AttributeError, self)
      | Some A \<Rightarrow>
        (case (self_pad_h self, self_pad_w self) of
           (Some pad_h, Some pad_w) \<Rightarrow>
             (case shape A of
                [samples, prev_height, prev_width, prev_channels] \<Rightarrow>
                  (case np_zeros [int samples, int prev_height, int prev_width,
                                  int prev_channels] of
                     Inl e \<Rightarrow> (Inl e, self)
                   | Inr dA \<Rightarrow>
                       if \<not> has_attribute self ''init_cache''
                       then (Inl AttributeError, self)
                       else backward_gradients self A dA (pad_h, pad_w) dY learning_rate)
              | _ \<Rightarrow> (Inl ValueError, self))
         | _ \<Rightarrow> (Inl AttributeError, self)))"

text \<open>The instances a program can hold: a constructed layer, and what a call of
  \<^verbatim>\<open>forward\<close> or \<^verbatim>\<open>backward\<close> leaves of one, whether the call returned or raised.\<close>

inductive reachable :: "Conv_layer \<Rightarrow> bool" where
  constructed: "reachable (Conv_layer_init nfilters ksh pad strd)"
| after_forward:
    "reachable self \<Longrightarrow> Conv_layer_forward self draw X = (res, self1) \<Longrightarrow> reachable self1"
| after_backward:
    "reachable self \<Longrightarrow> Conv_layer_backward self dY lr = (res, self1) \<Longrightarrow> reachable self1"

text \<open>What the spec asks of an output cell: the elementwise product of the kernel-shaped
  window of the padded input at offset \<open>(stride \<cdot> h, stride \<cdot> w)\<close> with filter \<open>c\<close>, summed,
  plus bias \<open>c\<close>.\<close>

definition cross_correlation ::
  "nat \<Rightarrow> nat \<times> nat \<Rightarrow> nat \<Rightarrow> ndarray \<Rightarrow> ndarray \<Rightarrow> ndarray \<Rightarrow> nat \<Rightarrow> nat \<Rightarrow> nat \<Rightarrow> nat \<Rightarrow> real" where
  "cross_correlation strd ksh nch X_pad W b i h w c =
     (\<Sum>a<fst ksh. \<Sum>d<snd ksh. \<Sum>ch<nch.
        at4 X_pad i (strd * h + a) (strd * w + d) ch * at4 W a d ch c) + at4 b 0 0 0 c"

text \<open>A loop invariant: \<open>Z1\<close> has the given shape, holds \<open>val\<close> at the cells in \<open>D\<close> and
  agrees with \<open>Z\<close> at the others.\<close>

definition filled ::
  "nat \<Rightarrow> nat \<Rightarrow> nat \<Rightarrow> nat \<Rightarrow> (nat \<Rightarrow> nat \<Rightarrow> nat \<Rightarrow> nat \<Rightarrow> bool)
     \<Rightarrow> (nat \<Rightarrow> nat \<Rightarrow> nat \<Rightarrow> nat \<Rightarrow> real) \<Rightarrow> ndarray \<Rightarrow> ndarray \<Rightarrow> bool" where
  "filled n0 n1 n2 n3 D val Z Z1 \<longleftrightarrow>
     shape Z1 = [n0, n1, n2, n3] \<and> length (data Z1) = n0 * n1 * n2 * n3
   \<and> (\<forall>i h w c. i < n0 \<and> h < n1 \<and> w < n2 \<and> c < n3 \<longrightarrow>
         at4 Z1 i h w c = (if D i h w c then val i h w c else at4 Z i h w c))"

section \<open>Concrete layers and batches for the instances below\<close>

definition fc_example :: FC where
  "fc_example = \<lparr>input = None, output_val = None,
       weights = \<lparr>shape = [2, 1], data = [1 / 20, 1 / 20]\<rparr>,
       bias = \<lparr>shape = [1, 1], data = [1 / 20]\<rparr>\<rparr>"

definition batch_example :: ndarray where
  "batch_example = \<lparr>shape = [2, 2], data = [1, 2, 3, 4]\<rparr>"

definition dY_example :: ndarray where
  "dY_example = \<lparr>shape = [2, 1], data = [2, 4]\<rparr>"

text \<open>Two draws of the initializer: every weight 1/4 and every bias 0, and every weight
  1 and every bias 0.\<close>

definition quarter_kernel :: "(nat \<Rightarrow> real) \<times> (nat \<Rightarrow> real)" where
  "quarter_kernel = (\<lambda>_. 1 / 4, \<lambda>_. 0)"

definition ones_kernel :: "(nat \<Rightarrow> real) \<times> (nat \<Rightarrow> real)" where
  "ones_kernel = (\<lambda>_. 1, \<lambda>_. 0)"

definition image_4x4 :: ndarray where
  "image_4x4 = \<lparr>shape = [1, 4, 4, 1],
                 data = [1, 2, 3, 4, 5, 6, 7, 8, 9, 10, 11, 12, 13, 14, 15, 16]\<rparr>"

definition image_2x2 :: ndarray where
  "image_2x2 = \<lparr>shape = [1, 2, 2, 1], data = [1, 2, 3, 4]\<rparr>"

definition image_1x1 :: ndarray where
  "image_1x1 = \<lparr>shape = [1, 1, 1, 1], data = [5]\<rparr>"

definition image_5x5 :: ndarray where
  "image_5x5 = \<lparr>shape = [1, 5, 5, 1], data = replicate 25 1\<rparr>"

definition dY_1x1 :: ndarray where
  "dY_1x1 = \<lparr>shape = [1, 1, 1, 1], data = [1]\<rparr>"

definition batch_of_two :: ndarray where
  "batch_of_two = \<lparr>shape = [2, 1, 1, 1], data = [1, 2]\<rparr>"

definition dY_of_two :: ndarray where
  "dY_of_two = \<lparr>shape = [2, 1, 1, 1], data = [1, 1]\<rparr>"

definition one_sample :: ndarray where
  "one_sample = \<lparr>shape = [1, 2], data = [1, 2]\<rparr>"

definition one_dY :: ndarray where
  "one_dY = \<lparr>shape = [1, 1], data = [3]\<rparr>"

section \<open>Properties\<close>

subsection \<open>Arrays\<close>

lemma concat_uniform_length:
  "(\<And>x. x \<in> set xss \<Longrightarrow> length x = k) \<Longrightarrow> length (concat xss) = length xss * k"
  by (induction xss) auto

lemma concat_uniform_nth:
  "(\<And>x. x \<in> set xss \<Longrightarrow> length x = k) \<Longrightarrow> i < length xss \<Longrightarrow> j < k
     \<Longrightarrow> concat xss ! (i * k + j) = xss ! i ! j"
proof (induction xss arbitrary: i)
  case Nil
  then show ?case by simp
next
  case (Cons x xss)
  show ?case
  proof (cases i)
    case 0
    with Cons.prems show ?thesis by (simp add: nth_append)
  next
    case (Suc i')
    have len: "length x = k" using Cons.prems by simp
    have "concat (x # xss) ! (i * k + j) = concat xss ! (i' * k + j)"
      using Suc len by (simp add: nth_append add.assoc)
    also have "\<dots> = xss ! i' ! j"
      using Cons.IH [of i'] Cons.prems Suc by simp
    finally show ?thesis using Suc by simp
  qed
qed

lemma shape_tabulate2 [simp]: "shape (tabulate2 m n f) = [m, n]"
  by (simp add: tabulate2_def)

lemma length_tabulate2 [simp]: "length (data (tabulate2 m n f)) = m * n"
  by (simp add: tabulate2_def length_concat comp_def sum_list_triv)

lemma at2_tabulate2 [simp]:
  assumes "i < m" and "j < n"
  shows "at2 (tabulate2 m n f) i j = f i j"
proof -
  have "concat (map (\<lambda>i. map (f i) [0..<n]) [0..<m]) ! (i * n + j)
          = map (\<lambda>i. map (f i) [0..<n]) [0..<m] ! i ! j"
    by (rule concat_uniform_nth) (use assms in auto)
  then show ?thesis using assms by (simp add: at2_def tabulate2_def)
qed

lemma tabulate2_cong:
  assumes "\<And>i j. i < m \<Longrightarrow> j < n \<Longrightarrow> f i j = g i j"
  shows "tabulate2 m n f = tabulate2 m n g"
proof -
  have eq: "map (\<lambda>i. map (f i) [0..<n]) [0..<m] = map (\<lambda>i. map (g i) [0..<n]) [0..<m]"
    using assms by (intro map_cong refl) simp
  show ?thesis by (simp only: tabulate2_def eq)
qed

lemma lin_index_less: "i < m \<Longrightarrow> j < n \<Longrightarrow> i * n + j < m * (n::nat)"
proof -
  assume a: "i < m" "j < n"
  then have "i * n + j < i * n + n" by simp
  also have "\<dots> = Suc i * n" by simp
  also have "\<dots> \<le> m * n" using a by (intro mult_le_mono1) simp
  finally show ?thesis .
qed

lemma sum_list_upt: "sum_list (map f [0..<n]) = (\<Sum>i<n. f i)"
  by (simp add: interv_sum_list_conv_sum_set_nat atLeast0LessThan)

subsection \<open>Arrays of rank 3 and 4, loops\<close>

lemma bidx_id [simp]: "i < n \<Longrightarrow> bidx n i = i"
  by (auto simp: bidx_def)

lemma lin_index_inj:
  fixes n :: nat
  assumes "j < n" and "j' < n" and "i * n + j = i' * n + j'"
  shows "i = i' \<and> j = j'"
proof -
  have "i = (i * n + j) div n" using assms(1) by simp
  also have "\<dots> = (i' * n + j') div n" by (simp only: assms(3))
  also have "\<dots> = i'" using assms(2) by simp
  finally show ?thesis using assms(3) by simp
qed

lemma data_tabulate3:
  "data (tabulate3 n0 n1 n2 f) = concat (map (\<lambda>i. data (tabulate2 n1 n2 (f i))) [0..<n0])"
  by (simp add: tabulate3_def tabulate2_def)

lemma data_tabulate4:
  "data (tabulate4 n0 n1 n2 n3 f) = concat (map (\<lambda>i. data (tabulate3 n1 n2 n3 (f i))) [0..<n0])"
  by (simp add: tabulate4_def tabulate3_def)

lemma shape_tabulate3 [simp]: "shape (tabulate3 n0 n1 n2 f) = [n0, n1, n2]"
  by (simp add: tabulate3_def)

lemma shape_tabulate4 [simp]: "shape (tabulate4 n0 n1 n2 n3 f) = [n0, n1, n2, n3]"
  by (simp add: tabulate4_def)

lemma length_tabulate3 [simp]: "length (data (tabulate3 n0 n1 n2 f)) = n0 * (n1 * n2)"
  by (simp add: data_tabulate3 length_concat comp_def sum_list_triv)

lemma length_tabulate4 [simp]: "length (data (tabulate4 n0 n1 n2 n3 f)) = n0 * (n1 * (n2 * n3))"
  by (simp add: data_tabulate4 length_concat comp_def sum_list_triv)

lemma nth_tabulate2: "i < m \<Longrightarrow> j < n \<Longrightarrow> data (tabulate2 m n f) ! (i * n + j) = f i j"
  using at2_tabulate2 [of i m j n f] by (simp add: at2_def)

lemma nth_tabulate3:
  assumes "i < n0" and "j < n1" and "k < n2"
  shows "data (tabulate3 n0 n1 n2 f) ! ((i * n1 + j) * n2 + k) = f i j k"
proof -
  have idx: "(i * n1 + j) * n2 + k = i * (n1 * n2) + (j * n2 + k)"
    by (simp add: algebra_simps)
  have lt: "j * n2 + k < n1 * n2" using assms by (simp add: lin_index_less)
  have "concat (map (\<lambda>i. data (tabulate2 n1 n2 (f i))) [0..<n0]) ! (i * (n1 * n2) + (j * n2 + k))
      = map (\<lambda>i. data (tabulate2 n1 n2 (f i))) [0..<n0] ! i ! (j * n2 + k)"
    by (rule concat_uniform_nth) (use assms lt in auto)
  then show ?thesis using assms by (simp add: data_tabulate3 idx nth_tabulate2)
qed

lemma nth_tabulate4:
  assumes "i < n0" and "j < n1" and "k < n2" and "l < n3"
  shows "data (tabulate4 n0 n1 n2 n3 f) ! (((i * n1 + j) * n2 + k) * n3 + l) = f i j k l"
proof -
  have idx: "((i * n1 + j) * n2 + k) * n3 + l = i * (n1 * (n2 * n3)) + ((j * n2 + k) * n3 + l)"
    by (simp add: algebra_simps)
  have "j * n2 + k < n1 * n2" using assms by (simp add: lin_index_less)
  then have lt: "(j * n2 + k) * n3 + l < n1 * (n2 * n3)"
    using assms lin_index_less [of "j * n2 + k" "n1 * n2" l n3] by (simp add: mult.assoc)
  have "concat (map (\<lambda>i. data (tabulate3 n1 n2 n3 (f i))) [0..<n0]) ! (i * (n1 * (n2 * n3)) + ((j * n2 + k) * n3 + l))
      = map (\<lambda>i. data (tabulate3 n1 n2 n3 (f i))) [0..<n0] ! i ! ((j * n2 + k) * n3 + l)"
    by (rule concat_uniform_nth) (use assms lt in auto)
  then show ?thesis using assms by (simp add: data_tabulate4 idx nth_tabulate3)
qed

lemma at3_tabulate3 [simp]:
  "i < n0 \<Longrightarrow> j < n1 \<Longrightarrow> k < n2 \<Longrightarrow> at3 (tabulate3 n0 n1 n2 f) i j k = f i j k"
  by (simp add: at3_def nth_tabulate3)

lemma at4_tabulate4 [simp]:
  "i < n0 \<Longrightarrow> j < n1 \<Longrightarrow> k < n2 \<Longrightarrow> l < n3 \<Longrightarrow> at4 (tabulate4 n0 n1 n2 n3 f) i j k l = f i j k l"
  by (simp add: at4_def nth_tabulate4)

lemma tabulate3_cong:
  assumes "\<And>i j k. i < n0 \<Longrightarrow> j < n1 \<Longrightarrow> k < n2 \<Longrightarrow> f i j k = g i j k"
  shows "tabulate3 n0 n1 n2 f = tabulate3 n0 n1 n2 g"
proof -
  have eq: "map (\<lambda>i. data (tabulate2 n1 n2 (f i))) [0..<n0] = map (\<lambda>i. data (tabulate2 n1 n2 (g i))) [0..<n0]"
    using assms by (intro map_cong refl arg_cong [where f = data] tabulate2_cong) simp
  show ?thesis
    by (rule ndarray.equality) (simp_all add: data_tabulate3 eq)
qed

lemma sum_list_concat_map: "sum_list (concat xss) = sum_list (map sum_list xss)"
  for xss :: "real list list"
  by (induction xss) simp_all

lemma np_sum_tabulate3:
  "np_sum (tabulate3 n0 n1 n2 f) = (\<Sum>i<n0. \<Sum>j<n1. \<Sum>k<n2. f i j k)"
  by (simp add: np_sum_def tabulate3_def sum_list_concat_map comp_def sum_list_upt)

lemma index4_less:
  assumes "i < n0" and "h < n1" and "w < n2" and "c < n3"
  shows "((i * n1 + h) * n2 + w) * n3 + c < n0 * n1 * n2 * (n3::nat)"
  using assms by (intro lin_index_less)

lemma index4_inj:
  assumes "h < n1" "w < n2" "c < n3" "h' < n1" "w' < n2" "c' < (n3::nat)"
    and "((i * n1 + h) * n2 + w) * n3 + c = ((i' * n1 + h') * n2 + w') * n3 + c'"
  shows "i = i' \<and> h = h' \<and> w = w' \<and> c = c'"
proof -
  from lin_index_inj [OF assms(3) assms(6) assms(7)]
  have 1: "(i * n1 + h) * n2 + w = (i' * n1 + h') * n2 + w'" and c: "c = c'" by simp_all
  from lin_index_inj [OF assms(2) assms(5) 1]
  have 2: "i * n1 + h = i' * n1 + h'" and w: "w = w'" by simp_all
  from lin_index_inj [OF assms(1) assms(4) 2] c w show ?thesis by simp
qed


lemma for_each_append:
  "for_each (xs @ ys) body s =
     (case for_each xs body s of Inl e \<Rightarrow> Inl e | Inr s1 \<Rightarrow> for_each ys body s1)"
  by (induction xs arbitrary: s) (auto split: sum.splits)

lemma for_range_rule:
  assumes "I 0 s"
    and "\<And>k t. k < n \<Longrightarrow> I k t \<Longrightarrow> \<exists>t'. body k t = Inr t' \<and> I (Suc k) t'"
  shows "\<exists>t. for_each [0..<n] body s = Inr t \<and> I n t"
  using assms(2)
proof (induction n)
  case 0
  then show ?case using assms(1) by simp
next
  case (Suc n)
  from Suc.IH Suc.prems obtain t where t: "for_each [0..<n] body s = Inr t" "I n t"
    by (meson less_Suc_eq)
  from Suc.prems [OF _ t(2)] obtain t' where "body n t = Inr t'" "I (Suc n) t'"
    by auto
  then show ?case using t by (simp add: for_each_append)
qed

lemma index_first_rank4:
  assumes "shape a = [n, n1, n2, n3]" and "length (data a) = n * n1 * n2 * n3" and "i < n"
  shows "\<exists>x. index_first a i = Inr x \<and> shape x = [n1, n2, n3]
           \<and> (\<forall>j<n1. \<forall>k<n2. \<forall>l<n3. at3 x j k l = at4 a i j k l)"
proof -
  let ?P = "n1 * (n2 * n3)"
  let ?x = "\<lparr>shape = [n1, n2, n3], data = take ?P (drop (i * ?P) (data a))\<rparr>"
  have ix: "index_first a i = Inr ?x" using assms by (simp add: index_first_def)
  have sh: "shape a ! 1 = n1" "shape a ! 2 = n2" "shape a ! 3 = n3"
    using assms(1) by simp_all
  have "at3 ?x j k l = at4 a i j k l" if "j < n1" "k < n2" "l < n3" for j k l
  proof -
    have "j * n2 + k < n1 * n2" using that by (simp add: lin_index_less)
    then have lt: "(j * n2 + k) * n3 + l < ?P"
      using that lin_index_less [of "j * n2 + k" "n1 * n2" l n3] by (simp add: mult.assoc)
    have "i * ?P \<le> n * ?P" using assms(3) by (intro mult_le_mono1) simp
    also have "\<dots> = length (data a)" using assms(2) by (simp add: mult.assoc)
    finally have le: "i * ?P \<le> length (data a)" .
    have idx: "i * ?P + ((j * n2 + k) * n3 + l) = ((i * n1 + j) * n2 + k) * n3 + l"
      by (simp add: algebra_simps)
    have "at3 ?x j k l = take ?P (drop (i * ?P) (data a)) ! ((j * n2 + k) * n3 + l)"
      by (simp add: at3_def)
    also have "\<dots> = drop (i * ?P) (data a) ! ((j * n2 + k) * n3 + l)"
      using lt by simp
    also have "\<dots> = data a ! (i * ?P + ((j * n2 + k) * n3 + l))"
      using le by (rule nth_drop)
    also have "\<dots> = at4 a i j k l"
      by (simp only: at4_def sh idx)
    finally show ?thesis .
  qed
  then show ?thesis using ix by auto
qed

lemma py_slice_inside:
  "0 \<le> a \<Longrightarrow> a \<le> b \<Longrightarrow> b \<le> int n \<Longrightarrow> py_slice a b n = (nat a, nat b)"
  by (simp add: py_slice_def Let_def)

lemma slice3_fits:
  assumes "shape x = [Hp, Wp, C]" and "vs + kh \<le> Hp" and "hs + kw \<le> Wp"
  shows "slice3 x (int vs, int (vs + kh)) (int hs, int (hs + kw))
           = Inr (tabulate3 kh kw C (\<lambda>a d ch. at3 x (vs + a) (hs + d) ch))"
proof -
  have "py_slice (int vs) (int (vs + kh)) Hp = (vs, vs + kh)"
    using assms(2) py_slice_inside [of "int vs" "int (vs + kh)" Hp] by simp
  moreover have "py_slice (int hs) (int (hs + kw)) Wp = (hs, hs + kw)"
    using assms(3) py_slice_inside [of "int hs" "int (hs + kw)" Wp] by simp
  ultimately show ?thesis
    unfolding slice3_def using assms(1) by (simp del: of_nat_add)
qed

lemma select_last_rank4:
  "shape a = [n0, n1, n2, n3] \<Longrightarrow> c < n3
     \<Longrightarrow> select_last a c = Inr (tabulate3 n0 n1 n2 (\<lambda>i j k. at4 a i j k c))"
  by (simp add: select_last_def)

lemma py_float_one: "py_float (tabulate3 1 1 1 f) = Inr (f 0 0 0)"
  by (simp add: py_float_def tabulate3_def)

lemma np_multiply_same:
  "np_multiply (tabulate3 n0 n1 n2 f) (tabulate3 n0 n1 n2 g)
     = Inr (tabulate3 n0 n1 n2 (\<lambda>i j k. f i j k * g i j k))"
  by (auto simp: np_multiply_def bdim_def intro!: tabulate3_cong)

lemma conv_single_step_fits:
  "conv_single_step (tabulate3 n0 n1 n2 f) (tabulate3 n0 n1 n2 g) (tabulate3 1 1 1 u)
     = Inr ((\<Sum>i<n0. \<Sum>j<n1. \<Sum>k<n2. f i j k * g i j k) + u 0 0 0)"
  unfolding conv_single_step_def np_multiply_same py_float_one
  by (simp add: then_do_def np_sum_tabulate3)

lemma forward_cell:
  assumes "shape x = [Hp, Wp, C]" and "\<forall>j<Hp. \<forall>k<Wp. \<forall>l<C. at3 x j k l = at4 X_pad i j k l"
    and "shape W = [kh, kw, C, F]" and "shape b = [1, 1, 1, F]" and "c < F"
    and "strd * h + kh \<le> Hp" and "strd * w + kw \<le> Wp"
  shows "then_do (slice3 x (int (strd * h), int (strd * h + kh)) (int (strd * w), int (strd * w + kw)))
           (\<lambda>x_slice.
         then_do (select_last W c) (\<lambda>Wc.
         then_do (select_last b c) (\<lambda>bc.
         then_do (conv_single_step x_slice Wc bc) (\<lambda>v.
         set4 Z i h w c v))))
       = set4 Z i h w c (cross_correlation strd (kh, kw) C X_pad W b i h w c)"
proof -
  have sums: "(\<Sum>a<kh. \<Sum>d<kw. \<Sum>ch<C. at3 x (strd * h + a) (strd * w + d) ch * at4 W a d ch c)
      = (\<Sum>a<kh. \<Sum>d<kw. \<Sum>ch<C. at4 X_pad i (strd * h + a) (strd * w + d) ch * at4 W a d ch c)"
    using assms(2,6,7) by (intro sum.cong refl) simp
  have sl: "slice3 x (int (strd * h), int (strd * h + kh)) (int (strd * w), int (strd * w + kw))
           = Inr (tabulate3 kh kw C (\<lambda>a d ch. at3 x (strd * h + a) (strd * w + d) ch))"
    by (rule slice3_fits [OF assms(1,6,7)])
  have sW: "select_last W c = Inr (tabulate3 kh kw C (\<lambda>i j k. at4 W i j k c))"
    by (rule select_last_rank4 [OF assms(3,5)])
  have sb: "select_last b c = Inr (tabulate3 1 1 1 (\<lambda>i j k. at4 b i j k c))"
    by (rule select_last_rank4 [OF assms(4,5)])
  show ?thesis
    unfolding sl sW sb then_do_def sum.case conv_single_step_fits sums cross_correlation_def
      fst_conv snd_conv ..
qed


lemma filled_refl:
  "shape Z = [n0, n1, n2, n3] \<Longrightarrow> length (data Z) = n0 * n1 * n2 * n3
     \<Longrightarrow> filled n0 n1 n2 n3 (\<lambda>i h w c. False) val Z Z"
  by (simp add: filled_def)

lemma filled_trans:
  assumes "filled n0 n1 n2 n3 D1 val Z Z1" and "filled n0 n1 n2 n3 D2 val Z1 Z2"
    and "\<And>i h w c. i < n0 \<Longrightarrow> h < n1 \<Longrightarrow> w < n2 \<Longrightarrow> c < n3
           \<Longrightarrow> D3 i h w c = (D1 i h w c \<or> D2 i h w c)"
  shows "filled n0 n1 n2 n3 D3 val Z Z2"
  using assms unfolding filled_def by auto

lemma filled_cong:
  assumes "filled n0 n1 n2 n3 D1 val Z Z1"
    and "\<And>i h w c. i < n0 \<Longrightarrow> h < n1 \<Longrightarrow> w < n2 \<Longrightarrow> c < n3 \<Longrightarrow> D3 i h w c = D1 i h w c"
  shows "filled n0 n1 n2 n3 D3 val Z Z1"
  using assms unfolding filled_def by auto

lemma set4_filled:
  assumes "shape Z = [n0, n1, n2, n3]" and "length (data Z) = n0 * n1 * n2 * n3"
    and "i < n0" and "h < n1" and "w < n2" and "c < n3"
  shows "\<exists>Z1. set4 Z i h w c (val i h w c) = Inr Z1
           \<and> filled n0 n1 n2 n3 (\<lambda>i' h' w' c'. i' = i \<and> h' = h \<and> w' = w \<and> c' = c) val Z Z1"
proof -
  let ?k = "((i * n1 + h) * n2 + w) * n3 + c"
  let ?Z1 = "Z\<lparr>data := (data Z)[?k := val i h w c]\<rparr>"
  have s: "set4 Z i h w c (val i h w c) = Inr ?Z1"
    using assms by (simp add: set4_def)
  have k: "?k < length (data Z)"
    using index4_less [OF assms(3-6)] assms(2) by simp
  have "at4 ?Z1 i' h' w' c' = (if i' = i \<and> h' = h \<and> w' = w \<and> c' = c then val i h w c
            else at4 Z i' h' w' c')"
    if "i' < n0" "h' < n1" "w' < n2" "c' < n3" for i' h' w' c'
  proof (cases "i' = i \<and> h' = h \<and> w' = w \<and> c' = c")
    case True
    then show ?thesis using k assms(1) by (simp add: at4_def)
  next
    case False
    have "((i' * n1 + h') * n2 + w') * n3 + c' \<noteq> ?k"
      using index4_inj [OF that(2-4) assms(4-6), of i' i] False by blast
    then have "at4 ?Z1 i' h' w' c' = at4 Z i' h' w' c'"
      using assms(1) by (simp add: at4_def)
    then show ?thesis using False by presburger
  qed
  then have "filled n0 n1 n2 n3 (\<lambda>i' h' w' c'. i' = i \<and> h' = h \<and> w' = w \<and> c' = c) val Z ?Z1"
    using assms(1,2) by (simp add: filled_def)
  then show ?thesis using s by blast
qed


lemma loop_filters:
  assumes x: "shape x = [Hp, Wp, C]" "\<forall>j<Hp. \<forall>k<Wp. \<forall>l<C. at3 x j k l = at4 X_pad i j k l"
    and W: "shape W = [fst ksh, snd ksh, C, F]" and b: "shape b = [1, 1, 1, F]"
    and fit: "strd * h + fst ksh \<le> Hp" "strd * w + snd ksh \<le> Wp"
    and Z: "shape Z = [n, nH, nW, F]" "length (data Z) = n * nH * nW * F"
    and r: "i < n" "h < nH" "w < nW"
  shows "\<exists>Z1. for_each [0..<F] (\<lambda>c Z.
                  then_do (slice3 x (int (strd * h), int (strd * h + fst ksh))
                             (int (strd * w), int (strd * w + snd ksh)))
                    (\<lambda>x_slice.
                  then_do (select_last W c) (\<lambda>Wc.
                  then_do (select_last b c) (\<lambda>bc.
                  then_do (conv_single_step x_slice Wc bc) (\<lambda>v.
                  set4 Z i h w c v))))) Z = Inr Z1
          \<and> filled n nH nW F (\<lambda>i' h' w' c'. i' = i \<and> h' = h \<and> w' = w)
                (cross_correlation strd ksh C X_pad W b) Z Z1"
proof -
  let ?val = "cross_correlation strd ksh C X_pad W b"
  let ?I = "\<lambda>k. filled n nH nW F (\<lambda>i' h' w' c'. i' = i \<and> h' = h \<and> w' = w \<and> c' < k) ?val Z"
  let ?body = "\<lambda>c Z.
                  then_do (slice3 x (int (strd * h), int (strd * h + fst ksh))
                             (int (strd * w), int (strd * w + snd ksh)))
                    (\<lambda>x_slice.
                  then_do (select_last W c) (\<lambda>Wc.
                  then_do (select_last b c) (\<lambda>bc.
                  then_do (conv_single_step x_slice Wc bc) (\<lambda>v.
                  set4 Z i h w c v))))"
  have "\<exists>t. for_each [0..<F] ?body Z = Inr t \<and> ?I F t"
  proof (rule for_range_rule [where I = ?I])
    show "?I 0 Z" using filled_refl [OF Z] by simp
  next
    fix k t assume k: "k < F" and I: "?I k t"
    have sh: "shape t = [n, nH, nW, F]" and len: "length (data t) = n * nH * nW * F"
      using I by (simp_all add: filled_def)
    from set4_filled [OF sh len r k, of ?val] obtain t' where
      t': "set4 t i h w k (?val i h w k) = Inr t'"
          "filled n nH nW F (\<lambda>i' h' w' c'. i' = i \<and> h' = h \<and> w' = w \<and> c' = k) ?val t t'"
      by blast
    have "?body k t = set4 t i h w k (?val i h w k)"
      using forward_cell [OF x W b k fit, of t] by simp
    moreover have "?I (Suc k) t'"
      by (rule filled_trans [OF I t'(2)]) (auto simp: less_Suc_eq)
    ultimately show "\<exists>t'. ?body k t = Inr t' \<and> ?I (Suc k) t'"
      using t'(1) by auto
  qed
  then obtain t where t: "for_each [0..<F] ?body Z = Inr t" "?I F t" by blast
  have "filled n nH nW F (\<lambda>i' h' w' c'. i' = i \<and> h' = h \<and> w' = w) ?val Z t"
    by (rule filled_cong [OF t(2)]) simp
  then show ?thesis using t(1) by blast
qed


lemma loop_columns:
  assumes x: "shape x = [Hp, Wp, C]" "\<forall>j<Hp. \<forall>k<Wp. \<forall>l<C. at3 x j k l = at4 X_pad i j k l"
    and W: "shape W = [fst ksh, snd ksh, C, F]" and b: "shape b = [1, 1, 1, F]"
    and fit: "strd * h + fst ksh \<le> Hp" "\<forall>w<nW. strd * w + snd ksh \<le> Wp"
    and Z: "shape Z = [n, nH, nW, F]" "length (data Z) = n * nH * nW * F"
    and r: "i < n" "h < nH"
  shows "\<exists>Z1. for_each [0..<nW] (\<lambda>w Z.
             let vert_start = strd * h;
                 vert_end = vert_start + fst ksh;
                 horiz_start = strd * w;
                 horiz_end = horiz_start + snd ksh
             in for_each [0..<F] (\<lambda>c Z.
                  then_do (slice3 x (int vert_start, int vert_end) (int horiz_start, int horiz_end))
                    (\<lambda>x_slice.
                  then_do (select_last W c) (\<lambda>Wc.
                  then_do (select_last b c) (\<lambda>bc.
                  then_do (conv_single_step x_slice Wc bc) (\<lambda>v.
                  set4 Z i h w c v))))) Z) Z = Inr Z1
          \<and> filled n nH nW F (\<lambda>i' h' w' c'. i' = i \<and> h' = h)
                (cross_correlation strd ksh C X_pad W b) Z Z1"
proof -
  let ?val = "cross_correlation strd ksh C X_pad W b"
  let ?I = "\<lambda>k. filled n nH nW F (\<lambda>i' h' w' c'. i' = i \<and> h' = h \<and> w' < k) ?val Z"
  let ?body = "\<lambda>w Z. for_each [0..<F] (\<lambda>c Z.
                  then_do (slice3 x (int (strd * h), int (strd * h + fst ksh))
                             (int (strd * w), int (strd * w + snd ksh)))
                    (\<lambda>x_slice.
                  then_do (select_last W c) (\<lambda>Wc.
                  then_do (select_last b c) (\<lambda>bc.
                  then_do (conv_single_step x_slice Wc bc) (\<lambda>v.
                  set4 Z i h w c v))))) Z"
  have "\<exists>t. for_each [0..<nW] ?body Z = Inr t \<and> ?I nW t"
  proof (rule for_range_rule [where I = ?I])
    show "?I 0 Z" using filled_refl [OF Z] by simp
  next
    fix k t assume k: "k < nW" and I: "?I k t"
    have sh: "shape t = [n, nH, nW, F]" and len: "length (data t) = n * nH * nW * F"
      using I by (simp_all add: filled_def)
    have fitk: "strd * k + snd ksh \<le> Wp" using fit(2) k by simp
    from loop_filters [OF x W b fit(1) fitk sh len r k] obtain t' where
      t': "?body k t = Inr t'"
          "filled n nH nW F (\<lambda>i' h' w' c'. i' = i \<and> h' = h \<and> w' = k) ?val t t'"
      by blast
    have "?I (Suc k) t'"
      by (rule filled_trans [OF I t'(2)]) (auto simp: less_Suc_eq)
    then show "\<exists>t'. ?body k t = Inr t' \<and> ?I (Suc k) t'"
      using t'(1) by blast
  qed
  then obtain t where t: "for_each [0..<nW] ?body Z = Inr t" "?I nW t" by blast
  have "filled n nH nW F (\<lambda>i' h' w' c'. i' = i \<and> h' = h) ?val Z t"
    by (rule filled_cong [OF t(2)]) simp
  then show ?thesis using t(1) unfolding Let_def by blast
qed

lemma loop_rows:
  assumes x: "shape x = [Hp, Wp, C]" "\<forall>j<Hp. \<forall>k<Wp. \<forall>l<C. at3 x j k l = at4 X_pad i j k l"
    and W: "shape W = [fst ksh, snd ksh, C, F]" and b: "shape b = [1, 1, 1, F]"
    and fit: "\<forall>h<nH. strd * h + fst ksh \<le> Hp" "\<forall>w<nW. strd * w + snd ksh \<le> Wp"
    and Z: "shape Z = [n, nH, nW, F]" "length (data Z) = n * nH * nW * F"
    and r: "i < n"
  shows "\<exists>Z1. for_each [0..<nH] (\<lambda>h Z. for_each [0..<nW] (\<lambda>w Z.
             let vert_start = strd * h;
                 vert_end = vert_start + fst ksh;
                 horiz_start = strd * w;
                 horiz_end = horiz_start + snd ksh
             in for_each [0..<F] (\<lambda>c Z.
                  then_do (slice3 x (int vert_start, int vert_end) (int horiz_start, int horiz_end))
                    (\<lambda>x_slice.
                  then_do (select_last W c) (\<lambda>Wc.
                  then_do (select_last b c) (\<lambda>bc.
                  then_do (conv_single_step x_slice Wc bc) (\<lambda>v.
                  set4 Z i h w c v))))) Z) Z) Z = Inr Z1
          \<and> filled n nH nW F (\<lambda>i' h' w' c'. i' = i)
                (cross_correlation strd ksh C X_pad W b) Z Z1"
proof -
  let ?val = "cross_correlation strd ksh C X_pad W b"
  let ?I = "\<lambda>k. filled n nH nW F (\<lambda>i' h' w' c'. i' = i \<and> h' < k) ?val Z"
  let ?body = "\<lambda>h Z. for_each [0..<nW] (\<lambda>w Z.
             let vert_start = strd * h;
                 vert_end = vert_start + fst ksh;
                 horiz_start = strd * w;
                 horiz_end = horiz_start + snd ksh
             in for_each [0..<F] (\<lambda>c Z.
                  then_do (slice3 x (int vert_start, int vert_end) (int horiz_start, int horiz_end))
                    (\<lambda>x_slice.
                  then_do (select_last W c) (\<lambda>Wc.
                  then_do (select_last b c) (\<lambda>bc.
                  then_do (conv_single_step x_slice Wc bc) (\<lambda>v.
                  set4 Z i h w c v))))) Z) Z"
  have "\<exists>t. for_each [0..<nH] ?body Z = Inr t \<and> ?I nH t"
  proof (rule for_range_rule [where I = ?I])
    show "?I 0 Z" using filled_refl [OF Z] by simp
  next
    fix k t assume k: "k < nH" and I: "?I k t"
    have sh: "shape t = [n, nH, nW, F]" and len: "length (data t) = n * nH * nW * F"
      using I by (simp_all add: filled_def)
    have fitk: "strd * k + fst ksh \<le> Hp" using fit(1) k by simp
    from loop_columns [OF x W b fitk fit(2) sh len r k] obtain t' where
      t': "?body k t = Inr t'"
          "filled n nH nW F (\<lambda>i' h' w' c'. i' = i \<and> h' = k) ?val t t'"
      by blast
    have "?I (Suc k) t'"
      by (rule filled_trans [OF I t'(2)]) (auto simp: less_Suc_eq)
    then show "\<exists>t'. ?body k t = Inr t' \<and> ?I (Suc k) t'"
      using t'(1) by blast
  qed
  then obtain t where t: "for_each [0..<nH] ?body Z = Inr t" "?I nH t" by blast
  have "filled n nH nW F (\<lambda>i' h' w' c'. i' = i) ?val Z t"
    by (rule filled_cong [OF t(2)]) simp
  then show ?thesis using t(1) by blast
qed

lemma forward_loops_filled:
  assumes X: "shape X_pad = [n, Hp, Wp, C]" "length (data X_pad) = n * Hp * Wp * C"
    and W: "shape W = [fst ksh, snd ksh, C, F]" and b: "shape b = [1, 1, 1, F]"
    and fit: "\<forall>h<nH. strd * h + fst ksh \<le> Hp" "\<forall>w<nW. strd * w + snd ksh \<le> Wp"
    and Z: "shape Z = [n, nH, nW, F]" "length (data Z) = n * nH * nW * F"
  shows "\<exists>Z1. forward_loops strd ksh n nH nW F X_pad W b Z = Inr Z1
          \<and> filled n nH nW F (\<lambda>i' h' w' c'. True)
                (cross_correlation strd ksh C X_pad W b) Z Z1"
proof -
  let ?val = "cross_correlation strd ksh C X_pad W b"
  let ?I = "\<lambda>k. filled n nH nW F (\<lambda>i' h' w' c'. i' < k) ?val Z"
  let ?body = "\<lambda>i Z.
       then_do (index_first X_pad i) (\<lambda>x.
         for_each [0..<nH] (\<lambda>h Z.
           for_each [0..<nW] (\<lambda>w Z.
             let vert_start = strd * h;
                 vert_end = vert_start + fst ksh;
                 horiz_start = strd * w;
                 horiz_end = horiz_start + snd ksh
             in for_each [0..<F] (\<lambda>c Z.
                  then_do (slice3 x (int vert_start, int vert_end) (int horiz_start, int horiz_end))
                    (\<lambda>x_slice.
                  then_do (select_last W c) (\<lambda>Wc.
                  then_do (select_last b c) (\<lambda>bc.
                  then_do (conv_single_step x_slice Wc bc) (\<lambda>v.
                  set4 Z i h w c v))))) Z) Z) Z)"
  have "\<exists>t. for_each [0..<n] ?body Z = Inr t \<and> ?I n t"
  proof (rule for_range_rule [where I = ?I])
    show "?I 0 Z" using filled_refl [OF Z] by simp
  next
    fix k t assume k: "k < n" and I: "?I k t"
    have sh: "shape t = [n, nH, nW, F]" and len: "length (data t) = n * nH * nW * F"
      using I by (simp_all add: filled_def)
    from index_first_rank4 [OF X k] obtain x where
      x: "index_first X_pad k = Inr x" "shape x = [Hp, Wp, C]"
         "\<forall>j<Hp. \<forall>l<Wp. \<forall>m<C. at3 x j l m = at4 X_pad k j l m"
      by blast
    from loop_rows [OF x(2,3) W b fit sh len k] obtain t' where
      t': "?body k t = Inr t'"
          "filled n nH nW F (\<lambda>i' h' w' c'. i' = k) ?val t t'"
      unfolding x(1) then_do_def sum.case by blast
    have "?I (Suc k) t'"
      by (rule filled_trans [OF I t'(2)]) (auto simp: less_Suc_eq)
    then show "\<exists>t'. ?body k t = Inr t' \<and> ?I (Suc k) t'"
      using t'(1) by blast
  qed
  then obtain t where t: "for_each [0..<n] ?body Z = Inr t" "?I n t" by blast
  have "filled n nH nW F (\<lambda>i' h' w' c'. True) ?val Z t"
    by (rule filled_cong [OF t(2)]) simp
  then show ?thesis using t(1) unfolding forward_loops_def by blast
qed

text \<open>A property that every iteration preserves holds when the loop returns; the
  convolution loops write cells and never change the shape of the output array.\<close>

lemma for_each_preserves:
  assumes "for_each xs body s = Inr t" and "P s"
    and "\<And>x s s'. x \<in> set xs \<Longrightarrow> P s \<Longrightarrow> body x s = Inr s' \<Longrightarrow> P s'"
  shows "P t"
  using assms
proof (induction xs arbitrary: s)
  case Nil
  then show ?case by simp
next
  case (Cons x xs)
  from Cons.prems(1) obtain s1 where s1: "body x s = Inr s1" "for_each xs body s1 = Inr t"
    by (auto split: sum.splits)
  have P1: "P s1" using Cons.prems(3) [of x s s1] Cons.prems(2) s1(1) by simp
  show ?case
  proof (rule Cons.IH [OF s1(2) P1])
    fix y u u' assume "y \<in> set xs" "P u" "body y u = Inr u'"
    then show "P u'" using Cons.prems(3) [of y u u'] by simp
  qed
qed

lemma set4_shape: "set4 Z i h w c v = Inr Z1 \<Longrightarrow> shape Z1 = shape Z"
  by (auto simp: set4_def split: list.splits if_splits)

lemma forward_loops_shape:
  assumes "forward_loops strd ksh n nH nW F X_pad W b Z0 = Inr Z"
  shows "shape Z = shape Z0"
proof -
  let ?P = "\<lambda>Z. shape Z = shape Z0"
  show ?thesis
    using assms unfolding forward_loops_def Let_def
    apply (elim for_each_preserves [where P = ?P])
     apply simp
    apply (clarsimp simp: then_do_def split: sum.splits)
    apply (erule for_each_preserves [where P = ?P], assumption)
    apply (erule for_each_preserves [where P = ?P], assumption)
    apply (erule for_each_preserves [where P = ?P], assumption)
    apply (auto split: sum.splits dest: set4_shape)
    done
qed

subsection \<open>Conv_layer.forward\<close>

lemma glorot_shapes:
  "shape (fst (glorot_uniform draw [kh, kw, C, F])) = [kh, kw, C, F]"
  "shape (snd (glorot_uniform draw [kh, kw, C, F])) = [1, 1, 1, F]"
  "length (data (snd (glorot_uniform draw [kh, kw, C, F]))) = F"
  by (simp_all add: glorot_uniform_def)

lemma np_zeros_rank4:
  assumes "0 \<le> nH" and "0 \<le> nW"
  shows "\<exists>Z. np_zeros [int n, nH, nW, int F] = Inr Z \<and> shape Z = [n, nat nH, nat nW, F]
           \<and> length (data Z) = n * nat nH * nat nW * F
           \<and> data Z = replicate (n * nat nH * nat nW * F) 0"
  using assms by (simp add: np_zeros_def mult.assoc)

lemma pad_inputs_rank4:
  assumes "shape X = [n, H, Wd, C]" and "0 \<le> ph" and "0 \<le> pw"
  shows "\<exists>Xp. pad_inputs X (ph, pw) = Inr Xp
           \<and> shape Xp = [n, H + 2 * nat ph, Wd + 2 * nat pw, C]
           \<and> length (data Xp) = n * (H + 2 * nat ph) * (Wd + 2 * nat pw) * C"
  using assms by (simp add: pad_inputs_def Let_def mult.assoc)

lemma forward_fits:
  assumes X: "shape X = [n, H, Wd, C]"
    and geo: "output_geometry (padding self) (stride self) (H, Wd) (kernel_shape self)
                = Inr (pad_h, pad_w, n_H, n_W)"
    and nonneg: "0 \<le> pad_h" "0 \<le> pad_w" "0 \<le> n_H" "0 \<le> n_W"
    and fit: "\<forall>h<nat n_H. stride self * h + fst (kernel_shape self) \<le> H + 2 * nat pad_h"
             "\<forall>w<nat n_W. stride self * w + snd (kernel_shape self) \<le> Wd + 2 * nat pad_w"
    and Wb: "glorot_uniform draw [fst (kernel_shape self), snd (kernel_shape self), C, filters self]
               = (W, b)"
  shows "\<exists>Z Z0 Xp. pad_inputs X (pad_h, pad_w) = Inr Xp
         \<and> Conv_layer_forward self draw X =
             (Inr Z, self\<lparr>self_W := Some W, self_b := Some b, self_pad_h := Some pad_h,
                          self_pad_w := Some pad_w, self_A := Some X\<rparr>)
         \<and> filled n (nat n_H) (nat n_W) (filters self) (\<lambda>i h w c. True)
              (cross_correlation (stride self) (kernel_shape self) C Xp W b) Z0 Z"
proof -
  obtain kh kw where ks: "kernel_shape self = (kh, kw)" by (cases "kernel_shape self")
  have sW: "shape W = [fst (kernel_shape self), snd (kernel_shape self), C, filters self]"
    and sb: "shape b = [1, 1, 1, filters self]"
    using glorot_shapes(1,2) [of draw "fst (kernel_shape self)" "snd (kernel_shape self)" C "filters self"]
    unfolding Wb by simp_all
  from np_zeros_rank4 [OF nonneg(3,4), of n "filters self"] obtain Z0 where
    Z0: "np_zeros [int n, n_H, n_W, int (filters self)] = Inr Z0"
        "shape Z0 = [n, nat n_H, nat n_W, filters self]"
        "length (data Z0) = n * nat n_H * nat n_W * filters self"
    by blast
  from pad_inputs_rank4 [OF X nonneg(1,2)] obtain Xp where
    Xp: "pad_inputs X (pad_h, pad_w) = Inr Xp"
        "shape Xp = [n, H + 2 * nat pad_h, Wd + 2 * nat pad_w, C]"
        "length (data Xp) = n * (H + 2 * nat pad_h) * (Wd + 2 * nat pad_w) * C"
    by blast
  from forward_loops_filled [OF Xp(2,3) sW sb fit Z0(2,3)] obtain Z where
    Z: "forward_loops (stride self) (kernel_shape self) n (nat n_H) (nat n_W) (filters self)
          Xp W b Z0 = Inr Z"
       "filled n (nat n_H) (nat n_W) (filters self) (\<lambda>i h w c. True)
              (cross_correlation (stride self) (kernel_shape self) C Xp W b) Z0 Z"
    by blast
  have "Conv_layer_forward self draw X =
             (Inr Z, self\<lparr>self_W := Some W, self_b := Some b, self_pad_h := Some pad_h,
                          self_pad_w := Some pad_w, self_A := Some X\<rparr>)"
    using X geo Wb Z0(1) Xp(1) Z(1) ks
    by (simp add: Conv_layer_forward_def then_do_def)
  then show ?thesis using Xp(1) Z(2) by blast
qed

text \<open>What a returning call has gone through: the geometry was computed, \<^verbatim>\<open>np.zeros\<close>
  accepted the dimensions, and the loops kept the shape.\<close>

lemma forward_returns_shape:
  assumes X: "shape X = [n, H, Wd, C]" and ks: "kernel_shape self = (kh, kw)"
    and r: "Conv_layer_forward self draw X = (Inr Z, self1)"
  shows "\<exists>pad_h pad_w n_H n_W.
      output_geometry (padding self) (stride self) (H, Wd) (kh, kw) = Inr (pad_h, pad_w, n_H, n_W)
    \<and> 0 \<le> n_H \<and> 0 \<le> n_W \<and> shape Z = [n, nat n_H, nat n_W, filters self]
    \<and> self_pad_h self1 = Some pad_h \<and> self_pad_w self1 = Some pad_w"
proof -
  obtain W b where Wb: "glorot_uniform draw [kh, kw, C, filters self] = (W, b)"
    by (cases "glorot_uniform draw [kh, kw, C, filters self]")
  from r X ks Wb obtain pad_h pad_w n_H n_W where
    geo: "output_geometry (padding self) (stride self) (H, Wd) (kh, kw) = Inr (pad_h, pad_w, n_H, n_W)"
    by (cases "output_geometry (padding self) (stride self) (H, Wd) (kh, kw)")
       (auto simp: Conv_layer_forward_def)
  from r X ks Wb geo obtain Z0 where
    Z0: "np_zeros [int n, n_H, n_W, int (filters self)] = Inr Z0"
    by (cases "np_zeros [int n, n_H, n_W, int (filters self)]")
       (auto simp: Conv_layer_forward_def)
  from r X ks Wb geo Z0 obtain Xp where
    loops: "forward_loops (stride self) (kh, kw) n (nat n_H) (nat n_W) (filters self) Xp W b Z0 = Inr Z"
    and s1: "self1 = self\<lparr>self_W := Some W, self_b := Some b, self_pad_h := Some pad_h,
                          self_pad_w := Some pad_w, self_A := Some X\<rparr>"
    by (auto simp: Conv_layer_forward_def then_do_def Let_def split: sum.splits)
  have nn: "0 \<le> n_H" "0 \<le> n_W" and sh0: "shape Z0 = [n, nat n_H, nat n_W, filters self]"
    using Z0 by (auto simp: np_zeros_def split: if_splits)
  have "shape Z = [n, nat n_H, nat n_W, filters self]"
    using forward_loops_shape [OF loops] sh0 by simp
  then show ?thesis using geo nn s1 by simp
qed

lemma truncated_quotient_nonneg:
  "b \<le> a \<Longrightarrow> truncated_quotient (int a - int b) (int s) = int ((a - b) div s)"
proof -
  assume le: "b \<le> a"
  have eq: "int a - int b = int (a - b)" using le by simp
  show ?thesis
    unfolding eq truncated_quotient_def
    by (simp add: zdiv_int)
qed

lemma valid_geometry:
  assumes "pad \<noteq> ''same''" and "0 < s" and "kh \<le> H" and "kw \<le> Wd"
  shows "output_geometry pad s (H, Wd) (kh, kw)
           = Inr (0, 0, int ((H - kh) div s + 1), int ((Wd - kw) div s + 1))"
    and "\<forall>h<(H - kh) div s + 1. s * h + kh \<le> H"
    and "\<forall>w<(Wd - kw) div s + 1. s * w + kw \<le> Wd"
proof -
  show "output_geometry pad s (H, Wd) (kh, kw)
           = Inr (0, 0, int ((H - kh) div s + 1), int ((Wd - kw) div s + 1))"
    using assms
    by (simp add: output_geometry_def int_truediv_def then_do_def truncated_quotient_nonneg
        del: of_nat_diff)
  have bound: "s * h + k \<le> D" if "h < (D - k) div s + 1" "k \<le> D" for h k D
  proof -
    have "h \<le> (D - k) div s" using that(1) by simp
    then have "s * h \<le> s * ((D - k) div s)" by simp
    also have "\<dots> \<le> D - k" by simp
    finally show ?thesis using that(2) by simp
  qed
  show "\<forall>h<(H - kh) div s + 1. s * h + kh \<le> H" using bound assms(3) by blast
  show "\<forall>w<(Wd - kw) div s + 1. s * w + kw \<le> Wd" using bound assms(4) by blast
qed

lemma same_geometry_odd_kernel:
  "output_geometry ''same'' 1 (H, Wd) (2 * p + 1, 2 * q + 1) = Inr (int p, int q, int H, int Wd)"
  by (simp add: output_geometry_def int_truediv_def then_do_def truncated_quotient_def)

lemma truncated_quotient_two:
  assumes "0 \<le> t" and "even t"
  shows "0 \<le> truncated_quotient t 2" and "2 * truncated_quotient t 2 = t"
  using assms by (auto simp: truncated_quotient_def)

lemma same_geometry_even:
  assumes th: "0 \<le> (int H - 1) * int s + int kh - int H"
              "even ((int H - 1) * int s + int kh - int H)"
    and pd: "pad_h = truncated_quotient ((int H - 1) * int s + int kh - int H) 2"
  shows "0 \<le> pad_h" and "\<forall>h<nat (int H). s * h + kh \<le> H + 2 * nat pad_h"
proof -
  note t = truncated_quotient_two [OF th]
  show p: "0 \<le> pad_h" using t(1) pd by simp
  show "\<forall>h<nat (int H). s * h + kh \<le> H + 2 * nat pad_h"
  proof (intro allI impI)
    fix h assume "h < nat (int H)"
    then have h: "int h \<le> int H - 1" by simp
    have "int s * int h \<le> int s * (int H - 1)"
      by (rule mult_left_mono [OF h]) simp
    then have "int (s * h + kh) \<le> (int H - 1) * int s + int kh"
      by (simp add: mult.commute)
    also have "\<dots> = int H + 2 * pad_h" using t(2) pd by simp
    also have "\<dots> = int (H + 2 * nat pad_h)" using p by simp
    finally show "s * h + kh \<le> H + 2 * nat pad_h" by (simp only: of_nat_le_iff)
  qed
qed

text \<open>The two usual configurations: under \<^verbatim>\<open>'valid'\<close> padding with a kernel no larger
  than the input and a positive stride, and under \<^verbatim>\<open>'same'\<close> padding with stride 1 and an
  odd kernel, every window lies inside the padded input and \<open>Conv_layer_forward\<close>
  returns.\<close>

lemma Conv_layer_forward_valid_returns:
  assumes "shape X = [n, H, Wd, C]" and "padding self \<noteq> ''same''" and "0 < stride self"
    and "kernel_shape self = (kh, kw)" and "kh \<le> H" and "kw \<le> Wd"
  shows "\<exists>Z self1. Conv_layer_forward self draw X = (Inr Z, self1)
           \<and> shape Z = [n, (H - kh) div stride self + 1, (Wd - kw) div stride self + 1,
                          filters self]"
proof -
  obtain W b where Wb:
    "glorot_uniform draw [fst (kernel_shape self), snd (kernel_shape self), C, filters self] = (W, b)"
    by (cases "glorot_uniform draw [fst (kernel_shape self), snd (kernel_shape self), C, filters self]")
  note g = valid_geometry [OF assms(2,3,5,6)]
  have geo: "output_geometry (padding self) (stride self) (H, Wd) (kernel_shape self)
      = Inr (0, 0, int ((H - kh) div stride self + 1), int ((Wd - kw) div stride self + 1))"
    using g(1) assms(4) by simp
  have fit: "\<forall>h<nat (int ((H - kh) div stride self + 1)).
               stride self * h + fst (kernel_shape self) \<le> H + 2 * nat 0"
    "\<forall>w<nat (int ((Wd - kw) div stride self + 1)).
               stride self * w + snd (kernel_shape self) \<le> Wd + 2 * nat 0"
    using g(2,3) assms(4) by simp_all
  from forward_fits [OF assms(1) geo _ _ _ _ fit Wb]
  obtain Z Z0 Xp where
    "Conv_layer_forward self draw X =
       (Inr Z, self\<lparr>self_W := Some W, self_b := Some b, self_pad_h := Some 0,
                    self_pad_w := Some 0, self_A := Some X\<rparr>)"
    "filled n (nat (int ((H - kh) div stride self + 1)))
        (nat (int ((Wd - kw) div stride self + 1))) (filters self) (\<lambda>i h w c. True)
        (cross_correlation (stride self) (kernel_shape self) C Xp W b) Z0 Z"
    by auto
  then show ?thesis by (auto simp: filled_def)
qed

lemma Conv_layer_forward_same_returns:
  assumes "shape X = [n, H, Wd, C]" and "padding self = ''same''" and "stride self = 1"
    and "kernel_shape self = (2 * p + 1, 2 * q + 1)"
  shows "\<exists>Z self1. Conv_layer_forward self draw X = (Inr Z, self1)
           \<and> shape Z = [n, H, Wd, filters self]"
proof -
  obtain W b where Wb:
    "glorot_uniform draw [fst (kernel_shape self), snd (kernel_shape self), C, filters self] = (W, b)"
    by (cases "glorot_uniform draw [fst (kernel_shape self), snd (kernel_shape self), C, filters self]")
  have geo: "output_geometry (padding self) (stride self) (H, Wd) (kernel_shape self)
      = Inr (int p, int q, int H, int Wd)"
    using same_geometry_odd_kernel [of H Wd p q] assms(2-4) by simp
  have fit: "\<forall>h<nat (int H). stride self * h + fst (kernel_shape self) \<le> H + 2 * nat (int p)"
    "\<forall>w<nat (int Wd). stride self * w + snd (kernel_shape self) \<le> Wd + 2 * nat (int q)"
    using assms(3,4) by simp_all
  from forward_fits [OF assms(1) geo _ _ _ _ fit Wb]
  obtain Z Z0 Xp where
    "Conv_layer_forward self draw X =
       (Inr Z, self\<lparr>self_W := Some W, self_b := Some b, self_pad_h := Some (int p),
                    self_pad_w := Some (int q), self_A := Some X\<rparr>)"
    "filled n (nat (int H)) (nat (int Wd)) (filters self) (\<lambda>i h w c. True)
        (cross_correlation (stride self) (kernel_shape self) C Xp W b) Z0 Z"
    by auto
  then show ?thesis by (auto simp: filled_def)
qed

text \<open>More generally under \<^verbatim>\<open>'same'\<close> padding: the pad amount is exact, and every window
  lies inside, when \<open>(in_dim - 1) \<cdot> stride + kernel_dim - in_dim\<close> is even and not negative.\<close>

lemma Conv_layer_forward_same_even_returns:
  assumes X: "shape X = [n, H, Wd, C]" and same: "padding self = ''same''"
    and ks: "kernel_shape self = (kh, kw)"
    and th: "0 \<le> (int H - 1) * int (stride self) + int kh - int H"
            "even ((int H - 1) * int (stride self) + int kh - int H)"
    and tw: "0 \<le> (int Wd - 1) * int (stride self) + int kw - int Wd"
            "even ((int Wd - 1) * int (stride self) + int kw - int Wd)"
  shows "\<exists>Z self1. Conv_layer_forward self draw X = (Inr Z, self1)
           \<and> shape Z = [n, H, Wd, filters self]"
proof -
  define pad_h where "pad_h = truncated_quotient ((int H - 1) * int (stride self) + int kh - int H) 2"
  define pad_w where "pad_w = truncated_quotient ((int Wd - 1) * int (stride self) + int kw - int Wd) 2"
  obtain W b where Wb:
    "glorot_uniform draw [fst (kernel_shape self), snd (kernel_shape self), C, filters self] = (W, b)"
    by (cases "glorot_uniform draw [fst (kernel_shape self), snd (kernel_shape self), C, filters self]")
  have geo: "output_geometry (padding self) (stride self) (H, Wd) (kernel_shape self)
      = Inr (pad_h, pad_w, int H, int Wd)"
    using same ks
    by (simp add: output_geometry_def int_truediv_def then_do_def pad_h_def pad_w_def)
  note gh = same_geometry_even [OF th pad_h_def]
  note gw = same_geometry_even [OF tw pad_w_def]
  have fit: "\<forall>h<nat (int H). stride self * h + fst (kernel_shape self) \<le> H + 2 * nat pad_h"
    "\<forall>w<nat (int Wd). stride self * w + snd (kernel_shape self) \<le> Wd + 2 * nat pad_w"
    using gh(2) gw(2) ks by simp_all
  from forward_fits [OF X geo gh(1) gw(1) _ _ fit Wb]
  obtain Z Z0 Xp where
    "Conv_layer_forward self draw X =
       (Inr Z, self\<lparr>self_W := Some W, self_b := Some b, self_pad_h := Some pad_h,
                    self_pad_w := Some pad_w, self_A := Some X\<rparr>)"
    "filled n (nat (int H)) (nat (int Wd)) (filters self) (\<lambda>i h w c. True)
        (cross_correlation (stride self) (kernel_shape self) C Xp W b) Z0 Z"
    by auto
  then show ?thesis by (auto simp: filled_def)
qed

text \<open>
  Claim C7. Every call of \<open>Conv_layer_forward\<close> on an input of rank 4 leaves as \<open>W\<close> and
  \<open>b\<close> what the initializer returns for the shape (kernel_h, kernel_w, channels of this
  input, filters), of shapes kernel_h \<times> kernel_w \<times> channels \<times> filters and
  1 \<times> 1 \<times> 1 \<times> filters, whether the call then returns or raises; whatever \<open>W\<close> and \<open>b\<close>
  held before (\<open>W0\<close>, \<open>b0\<close>) has no effect on the result or on the layer afterwards.
\<close>

theorem Conv_layer_forward_reinitializes:
  assumes "shape X = [n, H, Wd, C]" and "Conv_layer_forward self draw X = (res, self1)"
  shows "self_W self1 = Some (fst (glorot_uniform draw
             [fst (kernel_shape self), snd (kernel_shape self), C, filters self]))
       \<and> self_b self1 = Some (snd (glorot_uniform draw
             [fst (kernel_shape self), snd (kernel_shape self), C, filters self]))
       \<and> (\<exists>W b. self_W self1 = Some W \<and> self_b self1 = Some b
            \<and> shape W = [fst (kernel_shape self), snd (kernel_shape self), C, filters self]
            \<and> shape b = [1, 1, 1, filters self])
       \<and> Conv_layer_forward (self\<lparr>self_W := W0, self_b := b0\<rparr>) draw X = (res, self1)"
  using assms
  by (auto simp: Conv_layer_forward_def Let_def glorot_uniform_def split: sum.splits prod.splits)


text \<open>
  Claim C1, as the code has it. Let the kernel-shaped window at every output position
  that the loops visit lie inside the padded input (rows \<open>stride \<cdot> h\<close> to
  \<open>stride \<cdot> h + kernel_h\<close> for \<open>h < n_H\<close>, likewise the columns), the pad amounts and output
  dimensions being those that \<open>output_geometry\<close> computes. Then \<open>Conv_layer_forward\<close>
  returns an output of shape (samples, n_H, n_W, filters) whose cell \<open>(i, h, w, c)\<close> is the
  sum of the elementwise product of that window with filter \<open>c\<close>, plus bias \<open>c\<close>: a
  cross-correlation, the kernel is not flipped. The windows lie inside under \<^verbatim>\<open>'valid'\<close>
  padding with a kernel no larger than the input and a positive stride, and under
  \<^verbatim>\<open>'same'\<close> padding with stride 1 and an odd kernel (\<open>Conv_layer_forward_valid_returns\<close>,
  \<open>Conv_layer_forward_same_returns\<close>).
\<close>

theorem Conv_layer_forward_cross_correlation:
  assumes "shape X = [n, H, Wd, C]"
    and "output_geometry (padding self) (stride self) (H, Wd) (kernel_shape self)
           = Inr (pad_h, pad_w, n_H, n_W)"
    and "0 \<le> pad_h" and "0 \<le> pad_w" and "0 \<le> n_H" and "0 \<le> n_W"
    and "\<forall>h<nat n_H. stride self * h + fst (kernel_shape self) \<le> H + 2 * nat pad_h"
    and "\<forall>w<nat n_W. stride self * w + snd (kernel_shape self) \<le> Wd + 2 * nat pad_w"
    and "Conv_layer_forward self draw X = (res, self1)"
    and "i < n" and "h < nat n_H" and "w < nat n_W" and "c < filters self"
  shows "\<exists>Z X_pad W b. res = Inr Z
         \<and> shape Z = [n, nat n_H, nat n_W, filters self] \<and> wf_array Z
         \<and> pad_inputs X (pad_h, pad_w) = Inr X_pad
         \<and> self_W self1 = Some W \<and> self_b self1 = Some b
         \<and> at4 Z i h w c =
               (\<Sum>a<fst (kernel_shape self). \<Sum>d<snd (kernel_shape self). \<Sum>ch<C.
                  at4 X_pad i (stride self * h + a) (stride self * w + d) ch * at4 W a d ch c)
               + at4 b 0 0 0 c"
proof -
  obtain W b where Wb:
    "glorot_uniform draw [fst (kernel_shape self), snd (kernel_shape self), C, filters self] = (W, b)"
    by (cases "glorot_uniform draw [fst (kernel_shape self), snd (kernel_shape self), C, filters self]")
  from forward_fits [OF assms(1-8) Wb] obtain Z Z0 Xp where
    r: "pad_inputs X (pad_h, pad_w) = Inr Xp"
       "Conv_layer_forward self draw X =
             (Inr Z, self\<lparr>self_W := Some W, self_b := Some b, self_pad_h := Some pad_h,
                          self_pad_w := Some pad_w, self_A := Some X\<rparr>)"
       "filled n (nat n_H) (nat n_W) (filters self) (\<lambda>i h w c. True)
              (cross_correlation (stride self) (kernel_shape self) C Xp W b) Z0 Z"
    by blast
  have "at4 Z i h w c = cross_correlation (stride self) (kernel_shape self) C Xp W b i h w c"
    using r(3) assms(10-13) by (simp add: filled_def)
  moreover have "shape Z = [n, nat n_H, nat n_W, filters self]" "wf_array Z"
    using r(3) by (simp_all add: filled_def wf_array_def)
  moreover have "res = Inr Z" "self_W self1 = Some W" "self_b self1 = Some b"
    using r(2) assms(9) by auto
  ultimately show ?thesis
    using r(1) unfolding cross_correlation_def by blast
qed

text \<open>
  Claim C2, as the code has it, for an input of rank 4. Whenever \<open>Conv_layer_forward\<close>
  returns an output, its spatial dimensions are, under \<^verbatim>\<open>'valid'\<close> padding (any padding other
  than \<^verbatim>\<open>'same'\<close>), the quotient \<open>(in_dim - kernel_dim) / stride\<close> truncated toward zero, plus
  1, and the stored pad amounts are 0; under \<^verbatim>\<open>'same'\<close> padding they are the input's
  dimensions, and the stored pad amount is \<open>((in_dim - 1) \<cdot> stride + kernel_dim - in_dim) / 2\<close>
  truncated toward zero. It does return an output, of dimension
  \<open>floor((in_dim - kernel_dim) / stride) + 1\<close> per axis, under \<^verbatim>\<open>'valid'\<close> padding with a
  positive stride and a kernel no larger than the input on both axes; and it returns an
  output of the input's dimensions under \<^verbatim>\<open>'same'\<close> padding when
  \<open>(in_dim - 1) \<cdot> stride + kernel_dim - in_dim\<close> is even and not negative on both axes. In
  particular an input 5\<times>5 with a kernel 3\<times>3 and stride 1 gives an output 3\<times>3 under
  \<^verbatim>\<open>'valid'\<close> and 5\<times>5 under \<^verbatim>\<open>'same'\<close>.
\<close>

theorem Conv_layer_forward_output_shape:
  assumes "shape X = [n, H, Wd, C]" and "kernel_shape self = (kh, kw)"
    and "Conv_layer_forward self draw X = (res, self1)"
  shows "(\<forall>Z. res = Inr Z \<longrightarrow>
            (if padding self = ''same''
             then shape Z = [n, H, Wd, filters self]
                \<and> self_pad_h self1
                    = Some (truncated_quotient ((int H - 1) * int (stride self) + int kh - int H) 2)
                \<and> self_pad_w self1
                    = Some (truncated_quotient ((int Wd - 1) * int (stride self) + int kw - int Wd) 2)
             else map int (shape Z)
                    = [int n, truncated_quotient (int H - int kh) (int (stride self)) + 1,
                       truncated_quotient (int Wd - int kw) (int (stride self)) + 1,
                       int (filters self)]
                \<and> self_pad_h self1 = Some 0 \<and> self_pad_w self1 = Some 0))
       \<and> (padding self \<noteq> ''same'' \<and> 0 < stride self \<and> kh \<le> H \<and> kw \<le> Wd \<longrightarrow>
            (\<exists>Z. res = Inr Z
               \<and> shape Z = [n, (H - kh) div stride self + 1, (Wd - kw) div stride self + 1,
                              filters self]))
       \<and> (padding self = ''same''
            \<and> 0 \<le> (int H - 1) * int (stride self) + int kh - int H
            \<and> even ((int H - 1) * int (stride self) + int kh - int H)
            \<and> 0 \<le> (int Wd - 1) * int (stride self) + int kw - int Wd
            \<and> even ((int Wd - 1) * int (stride self) + int kw - int Wd) \<longrightarrow>
            (\<exists>Z. res = Inr Z \<and> shape Z = [n, H, Wd, filters self]))
       \<and> (H = 5 \<and> Wd = 5 \<and> kh = 3 \<and> kw = 3 \<and> stride self = 1 \<longrightarrow>
            (\<exists>Z. res = Inr Z
               \<and> shape Z = (if padding self = ''same'' then [n, 5, 5, filters self]
                             else [n, 3, 3, filters self])))"
proof -
  have A: "if padding self = ''same''
             then shape Z = [n, H, Wd, filters self]
                \<and> self_pad_h self1
                    = Some (truncated_quotient ((int H - 1) * int (stride self) + int kh - int H) 2)
                \<and> self_pad_w self1
                    = Some (truncated_quotient ((int Wd - 1) * int (stride self) + int kw - int Wd) 2)
             else map int (shape Z)
                    = [int n, truncated_quotient (int H - int kh) (int (stride self)) + 1,
                       truncated_quotient (int Wd - int kw) (int (stride self)) + 1,
                       int (filters self)]
                \<and> self_pad_h self1 = Some 0 \<and> self_pad_w self1 = Some 0"
    if "res = Inr Z" for Z
  proof -
    have r: "Conv_layer_forward self draw X = (Inr Z, self1)" using assms(3) that by simp
    from forward_returns_shape [OF assms(1,2) r] obtain pad_h pad_w n_H n_W where
      g: "output_geometry (padding self) (stride self) (H, Wd) (kh, kw) = Inr (pad_h, pad_w, n_H, n_W)"
      and nn: "0 \<le> n_H" "0 \<le> n_W"
      and sh: "shape Z = [n, nat n_H, nat n_W, filters self]"
      and pd: "self_pad_h self1 = Some pad_h" "self_pad_w self1 = Some pad_w"
      by blast
    show ?thesis
    proof (cases "padding self = ''same''")
      case True
      then show ?thesis using g nn sh pd
        by (auto simp: output_geometry_def int_truediv_def then_do_def)
    next
      case False
      then show ?thesis using g nn sh pd
        by (auto simp: output_geometry_def int_truediv_def then_do_def split: if_splits)
    qed
  qed
  have B: "\<exists>Z. res = Inr Z
               \<and> shape Z = [n, (H - kh) div stride self + 1, (Wd - kw) div stride self + 1,
                              filters self]"
    if "padding self \<noteq> ''same''" "0 < stride self" "kh \<le> H" "kw \<le> Wd"
    using Conv_layer_forward_valid_returns [OF assms(1) that(1,2) assms(2) that(3,4), of draw]
      assms(3) by auto
  have C: "\<exists>Z. res = Inr Z \<and> shape Z = [n, H, Wd, filters self]"
    if "padding self = ''same''"
      "0 \<le> (int H - 1) * int (stride self) + int kh - int H"
      "even ((int H - 1) * int (stride self) + int kh - int H)"
      "0 \<le> (int Wd - 1) * int (stride self) + int kw - int Wd"
      "even ((int Wd - 1) * int (stride self) + int kw - int Wd)"
    using Conv_layer_forward_same_even_returns [OF assms(1) that(1) assms(2) that(2-5), of draw]
      assms(3) by auto
  have D: "\<exists>Z. res = Inr Z
               \<and> shape Z = (if padding self = ''same'' then [n, 5, 5, filters self]
                             else [n, 3, 3, filters self])"
    if h: "H = 5" "Wd = 5" "kh = 3" "kw = 3" "stride self = 1"
  proof (cases "padding self = ''same''")
    case True
    have "\<exists>Z. res = Inr Z \<and> shape Z = [n, H, Wd, filters self]"
      by (rule C [OF True]) (simp_all add: h)
    then show ?thesis using True h by simp
  next
    case False
    have "\<exists>Z. res = Inr Z
               \<and> shape Z = [n, (H - kh) div stride self + 1, (Wd - kw) div stride self + 1,
                              filters self]"
      by (rule B [OF False]) (simp_all add: h)
    then show ?thesis using False h by simp
  qed
  show ?thesis
    using A B C D by blast
qed


theorem Conv_layer_forward_cross_correlation_witness:
  "\<exists>Z X_pad W b.
      fst (Conv_layer_forward (Conv_layer_init 1 (2, 2) ''valid'' 1) quarter_kernel image_4x4) = Inr Z
    \<and> shape Z = [1, nat 3, nat 3, filters (Conv_layer_init 1 (2, 2) ''valid'' 1)] \<and> wf_array Z
    \<and> pad_inputs image_4x4 (0, 0) = Inr X_pad
    \<and> self_W (snd (Conv_layer_forward (Conv_layer_init 1 (2, 2) ''valid'' 1) quarter_kernel image_4x4))
        = Some W
    \<and> self_b (snd (Conv_layer_forward (Conv_layer_init 1 (2, 2) ''valid'' 1) quarter_kernel image_4x4))
        = Some b
    \<and> at4 Z 0 1 2 0 =
         (\<Sum>a<fst (kernel_shape (Conv_layer_init 1 (2, 2) ''valid'' 1)).
          \<Sum>d<snd (kernel_shape (Conv_layer_init 1 (2, 2) ''valid'' 1)). \<Sum>ch<1.
            at4 X_pad 0 (stride (Conv_layer_init 1 (2, 2) ''valid'' 1) * 1 + a)
                        (stride (Conv_layer_init 1 (2, 2) ''valid'' 1) * 2 + d) ch * at4 W a d ch 0)
         + at4 b 0 0 0 0"
proof -
  let ?self = "Conv_layer_init 1 (2, 2) ''valid'' 1"
  let ?r = "Conv_layer_forward ?self quarter_kernel image_4x4"
  have h: "shape image_4x4 = [1, 4, 4, 1]"
    "output_geometry (padding ?self) (stride ?self) (4, 4) (kernel_shape ?self) = Inr (0, 0, 3, 3)"
    "(0::int) \<le> 0" "(0::int) \<le> 0" "(0::int) \<le> 3" "(0::int) \<le> 3"
    "\<forall>h<nat 3. stride ?self * h + fst (kernel_shape ?self) \<le> 4 + 2 * nat 0"
    "\<forall>w<nat 3. stride ?self * w + snd (kernel_shape ?self) \<le> 4 + 2 * nat 0"
    "?r = (fst ?r, snd ?r)"
    "(0::nat) < 1" "(1::nat) < nat 3" "(2::nat) < nat 3" "0 < filters ?self"
    by (simp_all add: image_4x4_def Conv_layer_init_def output_geometry_def int_truediv_def
        then_do_def truncated_quotient_def)
  show ?thesis by (rule Conv_layer_forward_cross_correlation [OF h])
qed

text \<open>The test of the spec: one sample, one channel, one filter, a 4\<times>4 input, a 2\<times>2 kernel
  of ones, no bias, stride 1, \<^verbatim>\<open>'valid'\<close>: each output cell is the sum of its window. (The
  kernel is the draw of the call: \<open>Conv_layer_forward\<close> keeps no kernel set beforehand.)\<close>

lemma forward_window_sums:
  "fst (Conv_layer_forward (Conv_layer_init 1 (2, 2) ''valid'' 1) ones_kernel image_4x4)
     = Inr \<lparr>shape = [1, 3, 3, 1], data = [14, 18, 22, 30, 34, 38, 46, 50, 54]\<rparr>"
  by code_simp

text \<open>
  Claim C1 as stated fails: with \<^verbatim>\<open>'same'\<close> padding, stride 1 and a 4\<times>4 kernel on a 2\<times>2
  input the pad amount is \<open>int(3 / 2) = 1\<close>, the padded input is 4\<times>4, and the window of
  output column 1 reaches column 5: the slice has 3 columns, the filter 4, and
  \<^verbatim>\<open>np.multiply\<close> raises. No output is returned.
\<close>

theorem Conv_layer_forward_same_even_kernel_raises:
  "fst (Conv_layer_forward (Conv_layer_init 1 (4, 4) ''same'' 1) quarter_kernel image_2x2)
     = Inl ValueError"
  by code_simp

theorem Conv_layer_forward_output_shape_witness:
  "(\<exists>Z. fst (Conv_layer_forward (Conv_layer_init 1 (3, 3) ''valid'' 1) quarter_kernel image_5x5) = Inr Z
       \<and> shape Z = [1, 3, 3, 1])
   \<and> self_pad_h (snd (Conv_layer_forward (Conv_layer_init 1 (3, 3) ''valid'' 1) quarter_kernel image_5x5))
       = Some 0
   \<and> (\<exists>Z. fst (Conv_layer_forward (Conv_layer_init 1 (3, 3) ''same'' 1) quarter_kernel image_5x5) = Inr Z
       \<and> shape Z = [1, 5, 5, 1])
   \<and> self_pad_h (snd (Conv_layer_forward (Conv_layer_init 1 (3, 3) ''same'' 1) quarter_kernel image_5x5))
       = Some 1
   \<and> (\<exists>Z. fst (Conv_layer_forward (Conv_layer_init 1 (2, 2) ''valid'' 2) quarter_kernel image_1x1) = Inr Z
       \<and> map int (shape Z) = [1, 1, 1, 1])"
proof -
  let ?v = "Conv_layer_init 1 (3, 3) ''valid'' 1"
  let ?s = "Conv_layer_init 1 (3, 3) ''same'' 1"
  let ?t = "Conv_layer_init 1 (2, 2) ''valid'' 2"
  let ?rv = "Conv_layer_forward ?v quarter_kernel image_5x5"
  let ?rs = "Conv_layer_forward ?s quarter_kernel image_5x5"
  let ?rt = "Conv_layer_forward ?t quarter_kernel image_1x1"
  have hv: "shape image_5x5 = [1, 5, 5, 1]" "kernel_shape ?v = (3, 3)" "?rv = (fst ?rv, snd ?rv)"
    by (simp_all add: image_5x5_def Conv_layer_init_def)
  have hs: "shape image_5x5 = [1, 5, 5, 1]" "kernel_shape ?s = (3, 3)" "?rs = (fst ?rs, snd ?rs)"
    by (simp_all add: image_5x5_def Conv_layer_init_def)
  have ht: "shape image_1x1 = [1, 1, 1, 1]" "kernel_shape ?t = (2, 2)" "?rt = (fst ?rt, snd ?rt)"
    by (simp_all add: image_1x1_def Conv_layer_init_def)
  note tv = Conv_layer_forward_output_shape [OF hv]
  note ts = Conv_layer_forward_output_shape [OF hs]
  note tt = Conv_layer_forward_output_shape [OF ht]
  have pv: "padding ?v \<noteq> ''same''" "stride ?v = 1" "filters ?v = 1"
    and ps: "padding ?s = ''same''" "stride ?s = 1" "filters ?s = 1"
    and pt: "padding ?t \<noteq> ''same''" "stride ?t = 2" "filters ?t = 1"
    by (simp_all add: Conv_layer_init_def)
  from tv pv obtain Zv where Zv: "fst ?rv = Inr Zv" "shape Zv = [1, 3, 3, 1]"
    by auto
  from tv Zv(1) pv have padv: "self_pad_h (snd ?rv) = Some 0"
    by simp
  from ts ps obtain Zs where Zs: "fst ?rs = Inr Zs" "shape Zs = [1, 5, 5, 1]"
    by auto
  from ts Zs(1) ps have pads: "self_pad_h (snd ?rs) = Some 1"
    by (simp add: truncated_quotient_def)
  have "fst ?rt = Inr \<lparr>shape = [1, 1, 1, 1], data = [5]\<rparr>" by code_simp
  then obtain Zt where Zt: "fst ?rt = Inr Zt" by blast
  from tt Zt pt have st: "map int (shape Zt) = [1, 1, 1, 1]"
    by (simp add: truncated_quotient_def)
  have v: "\<exists>Z. fst ?rv = Inr Z \<and> shape Z = [1, 3, 3, 1]"
    using Zv by (intro exI conjI)
  have s: "\<exists>Z. fst ?rs = Inr Z \<and> shape Z = [1, 5, 5, 1]"
    using Zs by (intro exI conjI)
  have t: "\<exists>Z. fst ?rt = Inr Z \<and> map int (shape Z) = [1, 1, 1, 1]"
    using Zt st by (intro exI conjI)
  show ?thesis
    by (intro conjI) (fact v padv s pads t)+
qed

text \<open>
  Claim C2 as stated fails: for a 1\<times>1 input, a 2\<times>2 kernel, stride 2 and \<^verbatim>\<open>'valid'\<close>
  padding the code computes \<open>n_H = int(-0.5) + 1 = 1\<close> where the floor gives 0, and
  \<open>Conv_layer_forward\<close> returns an output of spatial size 1\<times>1 (the 1\<times>1 slice is broadcast
  against the 2\<times>2 filter).
\<close>

theorem Conv_layer_forward_truncates_not_floors:
  "fst (Conv_layer_forward (Conv_layer_init 1 (2, 2) ''valid'' 2) quarter_kernel image_1x1)
     = Inr \<lparr>shape = [1, 1, 1, 1], data = [5]\<rparr>
   \<and> \<lfloor>(1 - 2) / (2::real)\<rfloor> + 1 = (0::int)"
proof -
  have "fst (Conv_layer_forward (Conv_layer_init 1 (2, 2) ''valid'' 2) quarter_kernel image_1x1)
     = Inr \<lparr>shape = [1, 1, 1, 1], data = [5]\<rparr>"
    by code_simp
  moreover have "\<lfloor>(1 - 2) / (2::real)\<rfloor> + 1 = (0::int)"
    by simp
  ultimately show ?thesis by (rule conjI)
qed

theorem Conv_layer_forward_reinitializes_witness:
  "self_W (snd (Conv_layer_forward
        ((Conv_layer_init 1 (2, 2) ''valid'' 1)\<lparr>self_W := Some image_5x5, self_b := Some image_1x1\<rparr>)
        quarter_kernel image_4x4))
     = Some (fst (glorot_uniform quarter_kernel [2, 2, 1, 1]))
   \<and> self_b (snd (Conv_layer_forward
        ((Conv_layer_init 1 (2, 2) ''valid'' 1)\<lparr>self_W := Some image_5x5, self_b := Some image_1x1\<rparr>)
        quarter_kernel image_4x4))
     = Some (snd (glorot_uniform quarter_kernel [2, 2, 1, 1]))
   \<and> Conv_layer_forward (Conv_layer_init 1 (2, 2) ''valid'' 1) quarter_kernel image_4x4
     = Conv_layer_forward
        ((Conv_layer_init 1 (2, 2) ''valid'' 1)\<lparr>self_W := Some image_5x5, self_b := Some image_1x1\<rparr>)
        quarter_kernel image_4x4"
proof -
  let ?self = "(Conv_layer_init 1 (2, 2) ''valid'' 1)\<lparr>self_W := Some image_5x5, self_b := Some image_1x1\<rparr>"
  let ?r = "Conv_layer_forward ?self quarter_kernel image_4x4"
  have h: "shape image_4x4 = [1, 4, 4, 1]" "?r = (fst ?r, snd ?r)"
    by (simp_all add: image_4x4_def)
  from Conv_layer_forward_reinitializes [OF h, of None None]
  show ?thesis by (simp add: Conv_layer_init_def)
qed

subsection \<open>Conv_layer.backward\<close>

lemma no_init_cache: "\<not> has_attribute self ''init_cache''"
  by (simp add: has_attribute_def instance_attributes_def Conv_layer_methods_def Layer_methods_def)

lemma Conv_layer_backward_raises:
  "\<exists>e. Conv_layer_backward self dY lr = (Inl e, self)"
  by (auto simp: Conv_layer_backward_def no_init_cache np_zeros_def
      split: option.splits list.splits)

lemma Conv_layer_backward_rank4:
  assumes "\<And>A. self_A self = Some A \<Longrightarrow> length (shape A) = 4"
  shows "Conv_layer_backward self dY lr = (Inl AttributeError, self)"
proof (cases "self_A self")
  case None
  then show ?thesis by (simp add: Conv_layer_backward_def)
next
  case (Some A)
  from assms [OF Some] obtain n0 n1 n2 n3 where "shape A = [n0, n1, n2, n3]"
    by (auto simp: length_Suc_conv eval_nat_numeral)
  then show ?thesis using Some
    by (auto simp: Conv_layer_backward_def no_init_cache np_zeros_def split: option.splits)
qed

lemma Conv_layer_forward_A:
  assumes "Conv_layer_forward self draw X = (res, self1)"
  shows "self_A self1 = self_A self \<or> (self_A self1 = Some X \<and> length (shape X) = 4)"
  using assms
  by (auto simp: Conv_layer_forward_def Let_def split: list.splits sum.splits prod.splits)

lemma reachable_rank4: "reachable self \<Longrightarrow> self_A self = Some A \<Longrightarrow> length (shape A) = 4"
proof (induction arbitrary: A rule: reachable.induct)
  case (constructed nfilters ksh pad strd)
  then show ?case by (simp add: Conv_layer_init_def)
next
  case (after_forward self draw X res self1)
  then show ?case using Conv_layer_forward_A [OF after_forward.hyps(2)] by auto
next
  case (after_backward self dY lr res self1)
  then show ?case using Conv_layer_backward_raises [of self dY lr] by auto
qed

text \<open>
  Claim C3. On every instance that a program can hold after a call of \<open>Conv_layer_forward\<close>
  (whether that call returned or raised), every call of \<open>Conv_layer_backward\<close> raises
  \<^verbatim>\<open>AttributeError\<close> and leaves the instance as it was: no gradient is computed and no
  parameter updated. Neither the instance, nor \<^verbatim>\<open>Conv_layer\<close>, nor \<^verbatim>\<open>Layer\<close> has an
  attribute \<^verbatim>\<open>init_cache\<close>.
\<close>

theorem Conv_layer_backward_AttributeError:
  assumes "reachable self0" and "Conv_layer_forward self0 draw X = (res, self)"
  shows "Conv_layer_backward self dY lr = (Inl AttributeError, self)
       \<and> \<not> has_attribute self ''init_cache''"
proof -
  have "reachable self" using assms by (rule reachable.after_forward)
  then have "Conv_layer_backward self dY lr = (Inl AttributeError, self)"
    by (intro Conv_layer_backward_rank4 reachable_rank4)
  then show ?thesis using no_init_cache by simp
qed

theorem Conv_layer_backward_AttributeError_witness:
  "Conv_layer_backward
      (snd (Conv_layer_forward (Conv_layer_init 1 (2, 2) ''valid'' 1) quarter_kernel image_4x4))
      \<lparr>shape = [1, 3, 3, 1], data = replicate 9 1\<rparr> (1 / 10)
     = (Inl AttributeError,
        snd (Conv_layer_forward (Conv_layer_init 1 (2, 2) ''valid'' 1) quarter_kernel image_4x4))
   \<and> \<not> has_attribute
        (snd (Conv_layer_forward (Conv_layer_init 1 (2, 2) ''valid'' 1) quarter_kernel image_4x4))
        ''init_cache''"
  by (rule Conv_layer_backward_AttributeError [OF reachable.constructed surjective_pairing])

lemma backward_after_forward:
  "Conv_layer_backward (snd (Conv_layer_forward (Conv_layer_init nfilters ksh pad strd) draw X)) dY lr
     = (Inl AttributeError, snd (Conv_layer_forward (Conv_layer_init nfilters ksh pad strd) draw X))"
  by (intro Conv_layer_backward_rank4 reachable_rank4)
     (rule reachable.after_forward [OF reachable.constructed surjective_pairing])

text \<open>
  Claim C4 asks that \<^verbatim>\<open>backward\<close> return a gradient of the shape of the cached input, and
  that the crop under \<^verbatim>\<open>'valid'\<close> padding use explicit bounds. On a 1\<times>1 input with a 1\<times>1
  kernel, \<^verbatim>\<open>'valid'\<close> padding and stride 1, after \<open>Conv_layer_forward\<close> returned,
  \<open>Conv_layer_backward\<close> raises \<^verbatim>\<open>AttributeError\<close> and returns no gradient; and the statements
  after the missing call crop with \<^verbatim>\<open>da_pad[0:-0, 0:-0, :]\<close>, an empty slice that the
  assignment to \<^verbatim>\<open>dA[i, :, :, :]\<close> refuses.
\<close>

theorem Conv_layer_backward_valid_returns_no_gradient:
  "fst (Conv_layer_forward (Conv_layer_init 1 (1, 1) ''valid'' 1) quarter_kernel image_1x1)
     = Inr \<lparr>shape = [1, 1, 1, 1], data = [5 / 4]\<rparr>
   \<and> fst (Conv_layer_backward
        (snd (Conv_layer_forward (Conv_layer_init 1 (1, 1) ''valid'' 1) quarter_kernel image_1x1))
        dY_1x1 1) = Inl AttributeError
   \<and> fst (backward_gradients
        (snd (Conv_layer_forward (Conv_layer_init 1 (1, 1) ''valid'' 1) quarter_kernel image_1x1))
        image_1x1 (zeros_like image_1x1) (0, 0) dY_1x1 1) = Inl ValueError"
proof -
  have "fst (Conv_layer_forward (Conv_layer_init 1 (1, 1) ''valid'' 1) quarter_kernel image_1x1)
     = Inr \<lparr>shape = [1, 1, 1, 1], data = [5 / 4]\<rparr>"
    by code_simp
  moreover have "fst (backward_gradients
        (snd (Conv_layer_forward (Conv_layer_init 1 (1, 1) ''valid'' 1) quarter_kernel image_1x1))
        image_1x1 (zeros_like image_1x1) (0, 0) dY_1x1 1) = Inl ValueError"
    by code_simp
  ultimately show ?thesis by (simp add: backward_after_forward)
qed

text \<open>
  Claim C5 describes the accumulation of \<^verbatim>\<open>dA_pad\<close>, \<^verbatim>\<open>dW\<close> and \<^verbatim>\<open>db\<close> by the loops of
  \<^verbatim>\<open>backward\<close>. On a 2\<times>2 input with a 3\<times>3 kernel, \<^verbatim>\<open>'same'\<close> padding and stride 1,
  after \<open>Conv_layer_forward\<close> returned, \<open>Conv_layer_backward\<close> raises before the loops: the
  instance is left as it was, \<^verbatim>\<open>dW\<close> and \<^verbatim>\<open>db\<close> were never assigned.
\<close>

theorem Conv_layer_backward_accumulates_nothing:
  "fst (Conv_layer_forward (Conv_layer_init 1 (3, 3) ''same'' 1) quarter_kernel image_2x2)
     = Inr \<lparr>shape = [1, 2, 2, 1], data = [5 / 2, 5 / 2, 5 / 2, 5 / 2]\<rparr>
   \<and> Conv_layer_backward
        (snd (Conv_layer_forward (Conv_layer_init 1 (3, 3) ''same'' 1) quarter_kernel image_2x2))
        \<lparr>shape = [1, 2, 2, 1], data = [1, 1, 1, 1]\<rparr> 1
     = (Inl AttributeError,
        snd (Conv_layer_forward (Conv_layer_init 1 (3, 3) ''same'' 1) quarter_kernel image_2x2))
   \<and> self_dW (snd (Conv_layer_forward (Conv_layer_init 1 (3, 3) ''same'' 1) quarter_kernel image_2x2))
     = None
   \<and> self_db (snd (Conv_layer_forward (Conv_layer_init 1 (3, 3) ''same'' 1) quarter_kernel image_2x2))
     = None"
proof -
  have "fst (Conv_layer_forward (Conv_layer_init 1 (3, 3) ''same'' 1) quarter_kernel image_2x2)
     = Inr \<lparr>shape = [1, 2, 2, 1], data = [5 / 2, 5 / 2, 5 / 2, 5 / 2]\<rparr>"
    by code_simp
  moreover have
    "self_dW (snd (Conv_layer_forward (Conv_layer_init 1 (3, 3) ''same'' 1) quarter_kernel image_2x2))
       = None"
    "self_db (snd (Conv_layer_forward (Conv_layer_init 1 (3, 3) ''same'' 1) quarter_kernel image_2x2))
       = None"
    by code_simp+
  ultimately show ?thesis by (simp add: backward_after_forward)
qed

text \<open>
  Claim C6 says that \<^verbatim>\<open>backward\<close> updates \<^verbatim>\<open>W\<close> and \<^verbatim>\<open>b\<close> once per sample. On a batch of
  two 1\<times>1 samples with a 3\<times>3 kernel, \<^verbatim>\<open>'same'\<close> padding and stride 1, after
  \<open>Conv_layer_forward\<close> returned, \<open>Conv_layer_backward\<close> raises before the sample loop: \<^verbatim>\<open>W\<close>
  and \<^verbatim>\<open>b\<close> are updated no time and keep the values the initializer gave them.
\<close>

theorem Conv_layer_backward_updates_nothing:
  "fst (Conv_layer_forward (Conv_layer_init 1 (3, 3) ''same'' 1) quarter_kernel batch_of_two)
     = Inr \<lparr>shape = [2, 1, 1, 1], data = [1 / 4, 1 / 2]\<rparr>
   \<and> Conv_layer_backward
        (snd (Conv_layer_forward (Conv_layer_init 1 (3, 3) ''same'' 1) quarter_kernel batch_of_two))
        dY_of_two 1
     = (Inl AttributeError,
        snd (Conv_layer_forward (Conv_layer_init 1 (3, 3) ''same'' 1) quarter_kernel batch_of_two))
   \<and> self_W (snd (Conv_layer_forward (Conv_layer_init 1 (3, 3) ''same'' 1) quarter_kernel batch_of_two))
     = Some \<lparr>shape = [3, 3, 1, 1],
              data = [1 / 4, 1 / 4, 1 / 4, 1 / 4, 1 / 4, 1 / 4, 1 / 4, 1 / 4, 1 / 4]\<rparr>
   \<and> self_b (snd (Conv_layer_forward (Conv_layer_init 1 (3, 3) ''same'' 1) quarter_kernel batch_of_two))
     = Some \<lparr>shape = [1, 1, 1, 1], data = [0]\<rparr>"
proof -
  have "fst (Conv_layer_forward (Conv_layer_init 1 (3, 3) ''same'' 1) quarter_kernel batch_of_two)
     = Inr \<lparr>shape = [2, 1, 1, 1], data = [1 / 4, 1 / 2]\<rparr>"
    by code_simp
  moreover have
    "self_W (snd (Conv_layer_forward (Conv_layer_init 1 (3, 3) ''same'' 1) quarter_kernel batch_of_two))
     = Some \<lparr>shape = [3, 3, 1, 1],
              data = [1 / 4, 1 / 4, 1 / 4, 1 / 4, 1 / 4, 1 / 4, 1 / 4, 1 / 4, 1 / 4]\<rparr>"
    "self_b (snd (Conv_layer_forward (Conv_layer_init 1 (3, 3) ''same'' 1) quarter_kernel batch_of_two))
     = Some \<lparr>shape = [1, 1, 1, 1], data = [0]\<rparr>"
    by code_simp+
  ultimately show ?thesis by (simp add: backward_after_forward)
qed

text \<open>
  The statements after the missing call, run on the same batch with learning rate 1:
  they return the gradient and update \<^verbatim>\<open>W\<close> and \<^verbatim>\<open>b\<close> inside the sample loop. The centre
  weight goes from 1/4 to -3/4 after the first sample (\<^verbatim>\<open>dW\<close> = 1) and to -15/4 after the
  second (\<^verbatim>\<open>dW\<close> has accumulated to 3), and the second sample's input gradient, -3/4, is
  computed from the weights the first update left. One update with the accumulated
  gradient would leave -11/4.
\<close>

lemma backward_gradients_update_per_sample:
  "backward_gradients
     (snd (Conv_layer_forward (Conv_layer_init 1 (3, 3) ''same'' 1) quarter_kernel batch_of_two))
     batch_of_two (zeros_like batch_of_two) (1, 1) dY_of_two 1
   = (Inr \<lparr>shape = [2, 1, 1, 1], data = [1 / 4, - (3 / 4)]\<rparr>,
      (Conv_layer_init 1 (3, 3) ''same'' 1)
        \<lparr>self_W := Some \<lparr>shape = [3, 3, 1, 1],
              data = [1 / 4, 1 / 4, 1 / 4, 1 / 4, - (15 / 4), 1 / 4, 1 / 4, 1 / 4, 1 / 4]\<rparr>,
         self_b := Some \<lparr>shape = [1, 1, 1, 1], data = [- 3]\<rparr>,
         self_pad_h := Some 1, self_pad_w := Some 1, self_A := Some batch_of_two,
         self_dW := Some \<lparr>shape = [3, 3, 1, 1], data = [0, 0, 0, 0, 3, 0, 0, 0, 0]\<rparr>,
         self_db := Some \<lparr>shape = [1, 1, 1, 1], data = [2]\<rparr>\<rparr>)"
  by code_simp

subsection \<open>FC\<close>

lemma map_data_tabulate2:
  "map g (data (tabulate2 m n f)) = data (tabulate2 m n (\<lambda>i j. g (f i j)))"
  by (simp add: tabulate2_def map_concat comp_def)

lemma array_T_matrix: "shape a = [m, n] \<Longrightarrow> array_T a = Inr (tabulate2 n m (\<lambda>i j. at2 a j i))"
  by (simp add: array_T_def)

lemma np_dot_matrix:
  "shape a = [m, k] \<Longrightarrow> shape b = [k, n] \<Longrightarrow>
   np_dot a b = Inr (tabulate2 m n (\<lambda>i j. \<Sum>l<k. at2 a i l * at2 b l j))"
  by (simp add: np_dot_def sum_list_upt)

lemma div_scalar_tabulate2:
  "0 < c \<Longrightarrow> div_scalar (tabulate2 m n f) c = Inr (tabulate2 m n (\<lambda>i j. f i j / real c))"
  by (simp add: div_scalar_def map_data_tabulate2)

lemma scalar_mul_tabulate2:
  "scalar_mul c (tabulate2 m n f) = tabulate2 m n (\<lambda>i j. c * f i j)"
  by (simp add: scalar_mul_def map_data_tabulate2)

lemma FC_dW_closed:
  assumes "shape X = [m, n_in]" and "shape dY = [m, n_out]" and "0 < m"
  shows "FC_dW X dY m =
           Inr (tabulate2 n_in n_out (\<lambda>j k. (\<Sum>r<m. at2 X r j * at2 dY r k) / real m))"
proof -
  have "tabulate2 n_in n_out (\<lambda>i j. \<Sum>l<m. at2 (tabulate2 n_in m (\<lambda>i j. at2 X j i)) i l * at2 dY l j)
      = tabulate2 n_in n_out (\<lambda>j k. \<Sum>r<m. at2 X r j * at2 dY r k)"
    by (rule tabulate2_cong) simp
  then show ?thesis
    using assms
    by (simp add: FC_dW_def then_do_def array_T_matrix np_dot_matrix [where k = m]
        div_scalar_tabulate2)
qed

lemma FC_dB_closed:
  assumes "shape dY = [m, n_out]" and "0 < m"
  shows "FC_dB dY m = Inr (tabulate2 1 n_out (\<lambda>i k. (\<Sum>r<m. at2 dY r k) / real m))"
  using assms
  by (simp add: FC_dB_def then_do_def sum_axis0_keepdims_def squeeze_def reshape_def
      div_scalar_def tabulate2_def at2_def sum_list_upt comp_def)

lemma isub_tabulate2:
  "shape a = [m, n] \<Longrightarrow>
   isub a (tabulate2 m n f) = Inr (tabulate2 m n (\<lambda>i j. at2 a i j - f i j))"
  by (auto simp: isub_def intro!: tabulate2_cong)

lemma FC_backward_closed:
  assumes "shape (weights self) = [n_in, n_out]" and "shape (bias self) = [1, n_out]"
    and "input self = Some X" and "shape X = [m, n_in]" and "shape dY = [m, n_out]"
    and "0 < m"
  shows "FC_backward self dY lr =
          (Inr (tabulate2 m n_in (\<lambda>i j. \<Sum>l<n_out. at2 dY i l * at2 (weights self) j l)),
           self\<lparr>weights := tabulate2 n_in n_out (\<lambda>j k. at2 (weights self) j k
                     - lr * ((\<Sum>r<m. at2 X r j * at2 dY r k) / real m)),
                bias := tabulate2 1 n_out (\<lambda>i k. at2 (bias self) i k
                     - lr * ((\<Sum>r<m. at2 dY r k) / real m))\<rparr>)"
proof -
  have grad: "then_do (array_T (weights self)) (np_dot dY)
        = Inr (tabulate2 m n_in (\<lambda>i j. \<Sum>l<n_out. at2 dY i l * at2 (weights self) j l))"
  proof -
    have "tabulate2 m n_in (\<lambda>i j. \<Sum>l<n_out. at2 dY i l * at2 (tabulate2 n_out n_in (\<lambda>i j. at2 (weights self) j i)) l j)
      = tabulate2 m n_in (\<lambda>i j. \<Sum>l<n_out. at2 dY i l * at2 (weights self) j l)"
      by (rule tabulate2_cong) simp
    then show ?thesis using assms
      by (simp add: then_do_def array_T_matrix np_dot_matrix [where k = n_out])
  qed
  show ?thesis
    using assms
    by (simp add: FC_backward_def grad FC_dW_closed [where m = m] FC_dB_closed [where m = m]
        scalar_mul_tabulate2 isub_tabulate2)
qed

lemma np_add_bias:
  assumes "shape b = [1, n]"
  shows "np_add (tabulate2 m n f) b = Inr (tabulate2 m n (\<lambda>i j. f i j + at2 b 0 j))"
  using assms by (auto simp: np_add_def bdim_def bidx_def intro!: tabulate2_cong)

lemma FC_forward_closed:
  assumes "shape (weights self) = [n_in, n_out]" and "shape (bias self) = [1, n_out]"
    and "shape X = [m, n_in]"
  shows "FC_forward self X =
          (Inr (tabulate2 m n_out (\<lambda>i j. (\<Sum>l<n_in. at2 X i l * at2 (weights self) l j)
                                          + at2 (bias self) 0 j)),
           self\<lparr>input := Some X,
                output_val := Some (tabulate2 m n_out (\<lambda>i j.
                   (\<Sum>l<n_in. at2 X i l * at2 (weights self) l j) + at2 (bias self) 0 j))\<rparr>)"
  using assms
  by (simp add: FC_forward_def then_do_def np_dot_matrix [where k = n_in] np_add_bias)

text \<open>
  Claim C8. After \<open>FC_forward\<close> returned on an input \<open>X\<close> of batch size \<open>m > 0\<close>, which
  it caches, \<open>FC_backward\<close> on a \<open>dY\<close> of the shape of the output returns the input gradient
  \<open>dY \<cdot> W\<^sup>T\<close> of shape (batch, input_size), computed from the weights before the update,
  and leaves the layer with \<open>W - lr \<cdot> (X\<^sup>T \<cdot> dY / m)\<close> as weights and
  \<open>b - lr \<cdot> (sum of dY over the batch / m)\<close> as bias, both of unchanged shape. The
  statement is entrywise: \<open>i\<close>, \<open>j\<close>, \<open>k\<close> range over the batch, the inputs and the outputs.
\<close>

theorem FC_backward_update:
  assumes "shape (weights self0) = [n_in, n_out]" and "shape (bias self0) = [1, n_out]"
    and "shape X = [m, n_in]" and "0 < m"
    and "FC_forward self0 X = (out, self)"
    and "shape dY = [m, n_out]"
    and "FC_backward self dY lr = (res, self1)"
    and "i < m" and "j < n_in" and "k < n_out"
  shows "\<exists>Y grad. out = Inr Y \<and> shape Y = [m, n_out] \<and> res = Inr grad
         \<and> shape grad = [m, n_in] \<and> wf_array grad
         \<and> at2 grad i j = (\<Sum>l<n_out. at2 dY i l * at2 (weights self0) j l)
         \<and> shape (weights self1) = [n_in, n_out] \<and> wf_array (weights self1)
         \<and> at2 (weights self1) j k
               = at2 (weights self0) j k - lr * ((\<Sum>r<m. at2 X r j * at2 dY r k) / real m)
         \<and> shape (bias self1) = [1, n_out] \<and> wf_array (bias self1)
         \<and> at2 (bias self1) 0 k
               = at2 (bias self0) 0 k - lr * ((\<Sum>r<m. at2 dY r k) / real m)"
proof -
  let ?Y = "tabulate2 m n_out (\<lambda>i j. (\<Sum>l<n_in. at2 X i l * at2 (weights self0) l j)
                                          + at2 (bias self0) 0 j)"
  have fw: "out = Inr ?Y" "self = self0\<lparr>input := Some X, output_val := Some ?Y\<rparr>"
    using assms(5) unfolding FC_forward_closed [OF assms(1-3)] by simp_all
  have s: "shape (weights self) = [n_in, n_out]" "shape (bias self) = [1, n_out]"
    "input self = Some X" "weights self = weights self0" "bias self = bias self0"
    using fw(2) assms(1,2) by simp_all
  show ?thesis
    using assms(7-10) fw(1)
    unfolding FC_backward_closed [OF s(1-3) assms(3,6,4)] s(4,5)
    by (auto simp: wf_array_def)
qed

lemma sum_div_repeat:
  fixes g :: "nat \<Rightarrow> real"
  assumes "0 < k"
  shows "(\<Sum>r<m * k. g (r div k)) = real k * (\<Sum>i<m. g i)"
proof (induction m)
  case 0
  then show ?case by simp
next
  case (Suc m)
  have split: "{..<Suc m * k} = {..<m * k} \<union> {m * k..<m * k + k}"
    by (auto simp: add.commute)
  have "(\<Sum>r<Suc m * k. g (r div k)) = (\<Sum>r<m * k. g (r div k)) + (\<Sum>r = m * k..<m * k + k. g (r div k))"
    unfolding split by (rule sum.union_disjoint) auto
  also have "(\<Sum>r = m * k..<m * k + k. g (r div k)) = (\<Sum>r = m * k..<m * k + k. g m)"
  proof (rule sum.cong [OF refl])
    fix r assume "r \<in> {m * k..<m * k + k}"
    then have "r div k = m" using assms
      by (metis atLeastLessThan_iff add.commute div_nat_eqI mult.commute mult_Suc_right)
    then show "g (r div k) = g m" by simp
  qed
  also have "\<dots> = real k * g m" by simp
  finally show ?case using Suc.IH by (simp add: algebra_simps)
qed

lemma shape_repeat_rows: "shape a = [m, n] \<Longrightarrow> shape (repeat_rows k a) = [m * k, n]"
  by (simp add: repeat_rows_def)

lemma at2_repeat_rows:
  "shape a = [m, n] \<Longrightarrow> r < m * k \<Longrightarrow> j < n \<Longrightarrow> at2 (repeat_rows k a) r j = at2 a (r div k) j"
  by (simp add: repeat_rows_def)

lemma dW_entry_repeat:
  assumes "shape X = [m, n_in]" and "shape dY = [m, n_out]" and "0 < m" and "0 < k"
    and "j < n_in" and "c < n_out"
  shows "(\<Sum>r<m * k. at2 (repeat_rows k X) r j * at2 (repeat_rows k dY) r c) / real (m * k)
       = (\<Sum>r<m. at2 X r j * at2 dY r c) / real m"
proof -
  have "(\<Sum>r<m * k. at2 (repeat_rows k X) r j * at2 (repeat_rows k dY) r c)
      = (\<Sum>r<m * k. at2 X (r div k) j * at2 dY (r div k) c)"
    using assms by (intro sum.cong refl) (simp add: at2_repeat_rows)
  also have "\<dots> = real k * (\<Sum>r<m. at2 X r j * at2 dY r c)"
    by (rule sum_div_repeat [OF assms(4)])
  finally show ?thesis using assms by simp
qed

lemma dB_entry_repeat:
  assumes "shape dY = [m, n_out]" and "0 < m" and "0 < k" and "c < n_out"
  shows "(\<Sum>r<m * k. at2 (repeat_rows k dY) r c) / real (m * k) = (\<Sum>r<m. at2 dY r c) / real m"
proof -
  have "(\<Sum>r<m * k. at2 (repeat_rows k dY) r c) = (\<Sum>r<m * k. at2 dY (r div k) c)"
    using assms by (intro sum.cong refl) (simp add: at2_repeat_rows)
  also have "\<dots> = real k * (\<Sum>r<m. at2 dY r c)"
    by (rule sum_div_repeat [OF assms(3)])
  finally show ?thesis using assms by simp
qed

text \<open>
  Claim C9. With weights and bias fixed, repeating every row of the cached input and of
  \<open>dY\<close> the same number \<open>k > 0\<close> of times changes neither \<open>dW\<close> nor \<open>dB\<close>, nor the
  weights and bias that \<open>FC_backward\<close> leaves: the gradients are averaged over the batch.
\<close>

theorem FC_batch_average:
  assumes "shape X = [m, n_in]" and "shape dY = [m, n_out]" and "0 < m" and "0 < k"
    and "shape (weights self) = [n_in, n_out]" and "shape (bias self) = [1, n_out]"
  shows "(\<exists>dW. FC_dW X dY m = Inr dW \<and> FC_dW (repeat_rows k X) (repeat_rows k dY) (m * k) = Inr dW)
       \<and> (\<exists>dB. FC_dB dY m = Inr dB \<and> FC_dB (repeat_rows k dY) (m * k) = Inr dB)
       \<and> (\<exists>g1 g2 self1 self2.
             FC_backward (self\<lparr>input := Some X\<rparr>) dY lr = (Inr g1, self1)
           \<and> FC_backward (self\<lparr>input := Some (repeat_rows k X)\<rparr>) (repeat_rows k dY) lr
                 = (Inr g2, self2)
           \<and> weights self2 = weights self1 \<and> bias self2 = bias self1)"
proof -
  let ?X = "repeat_rows k X" and ?dY = "repeat_rows k dY"
  have sX: "shape ?X = [m * k, n_in]" and sdY: "shape ?dY = [m * k, n_out]"
    using assms by (simp_all add: shape_repeat_rows)
  have mk: "0 < m * k" using assms by simp
  have dW: "FC_dW ?X ?dY (m * k) = FC_dW X dY m"
    unfolding FC_dW_closed [OF sX sdY mk] FC_dW_closed [OF assms(1,2,3)]
    by (rule arg_cong [where f = Inr], rule tabulate2_cong, rule dW_entry_repeat [OF assms(1-4)])
  have dB: "FC_dB ?dY (m * k) = FC_dB dY m"
    unfolding FC_dB_closed [OF sdY mk] FC_dB_closed [OF assms(2,3)]
    by (rule arg_cong [where f = Inr], rule tabulate2_cong, rule dB_entry_repeat [OF assms(2-4)])
  have W: "tabulate2 n_in n_out (\<lambda>j c. at2 (weights self) j c
              - lr * ((\<Sum>r<m * k. at2 ?X r j * at2 ?dY r c) / real (m * k)))
         = tabulate2 n_in n_out (\<lambda>j c. at2 (weights self) j c
              - lr * ((\<Sum>r<m. at2 X r j * at2 dY r c) / real m))"
    by (rule tabulate2_cong) (simp only: dW_entry_repeat [OF assms(1-4)])
  have B: "tabulate2 1 n_out (\<lambda>i c. at2 (bias self) i c
              - lr * ((\<Sum>r<m * k. at2 ?dY r c) / real (m * k)))
         = tabulate2 1 n_out (\<lambda>i c. at2 (bias self) i c
              - lr * ((\<Sum>r<m. at2 dY r c) / real m))"
    by (rule tabulate2_cong) (simp only: dB_entry_repeat [OF assms(2-4)])
  have b1: "FC_backward (self\<lparr>input := Some X\<rparr>) dY lr = 
          (Inr (tabulate2 m n_in (\<lambda>i j. \<Sum>l<n_out. at2 dY i l * at2 (weights self) j l)),
           self\<lparr>input := Some X, weights := tabulate2 n_in n_out (\<lambda>j k. at2 (weights self) j k
                     - lr * ((\<Sum>r<m. at2 X r j * at2 dY r k) / real m)),
                bias := tabulate2 1 n_out (\<lambda>i k. at2 (bias self) i k
                     - lr * ((\<Sum>r<m. at2 dY r k) / real m))\<rparr>)"
    using FC_backward_closed [of "self\<lparr>input := Some X\<rparr>" n_in n_out X m dY lr] assms
    by simp
  have b2: "FC_backward (self\<lparr>input := Some ?X\<rparr>) ?dY lr = 
          (Inr (tabulate2 (m * k) n_in (\<lambda>i j. \<Sum>l<n_out. at2 ?dY i l * at2 (weights self) j l)),
           self\<lparr>input := Some ?X, weights := tabulate2 n_in n_out (\<lambda>j c. at2 (weights self) j c
                     - lr * ((\<Sum>r<m * k. at2 ?X r j * at2 ?dY r c) / real (m * k))),
                bias := tabulate2 1 n_out (\<lambda>i c. at2 (bias self) i c
                     - lr * ((\<Sum>r<m * k. at2 ?dY r c) / real (m * k)))\<rparr>)"
    using FC_backward_closed [of "self\<lparr>input := Some ?X\<rparr>" n_in n_out ?X "m * k" ?dY lr]
      assms sX sdY mk
    by simp
  show ?thesis
    unfolding b1 b2 W B dW dB
    by (simp add: FC_dW_closed [OF assms(1,2,3)] FC_dB_closed [OF assms(2,3)])
qed

theorem FC_batch_average_witness:
  "(\<exists>dW. FC_dW one_sample one_dY 1 = Inr dW
        \<and> FC_dW (repeat_rows 4 one_sample) (repeat_rows 4 one_dY) (1 * 4) = Inr dW)
   \<and> (\<exists>dB. FC_dB one_dY 1 = Inr dB \<and> FC_dB (repeat_rows 4 one_dY) (1 * 4) = Inr dB)
   \<and> (\<exists>g1 g2 self1 self2.
         FC_backward (fc_example\<lparr>input := Some one_sample\<rparr>) one_dY (1/2) = (Inr g1, self1)
       \<and> FC_backward (fc_example\<lparr>input := Some (repeat_rows 4 one_sample)\<rparr>)
             (repeat_rows 4 one_dY) (1/2) = (Inr g2, self2)
       \<and> weights self2 = weights self1 \<and> bias self2 = bias self1)"
  by (rule FC_batch_average [where n_in = 2 and n_out = 1])
     (simp_all add: one_sample_def one_dY_def fc_example_def)

theorem FC_backward_update_witness:
  "\<exists>Y grad.
       fst (FC_forward fc_example batch_example) = Inr Y \<and> shape Y = [2, 1]
     \<and> fst (FC_backward (snd (FC_forward fc_example batch_example)) dY_example 1) = Inr grad
     \<and> shape grad = [2, 2] \<and> at2 grad 1 0 = 1 / 5
     \<and> weights (snd (FC_backward (snd (FC_forward fc_example batch_example)) dY_example 1))
         = \<lparr>shape = [2, 1], data = [- (139 / 20), - (199 / 20)]\<rparr>
     \<and> bias (snd (FC_backward (snd (FC_forward fc_example batch_example)) dY_example 1))
         = \<lparr>shape = [1, 1], data = [- (59 / 20)]\<rparr>"
proof -
  let ?f = "FC_forward fc_example batch_example"
  let ?r = "FC_backward (snd ?f) dY_example 1"
  have h: "shape (weights fc_example) = [2, 1]" "shape (bias fc_example) = [1, 1]"
    "shape batch_example = [2, 2]" "(0::nat) < 2" "?f = (fst ?f, snd ?f)"
    "shape dY_example = [2, 1]" "?r = (fst ?r, snd ?r)"
    by (simp_all add: fc_example_def dY_example_def batch_example_def)
  have idx: "(1::nat) < 2" "(0::nat) < 2" "(0::nat) < 1" by simp_all
  from FC_backward_update [OF h idx]
  obtain Y grad where g: "fst ?f = Inr Y" "shape Y = [2, 1]" "fst ?r = Inr grad"
     "shape grad = [2, 2]"
     "at2 grad 1 0 = (\<Sum>l<1. at2 dY_example 1 l * at2 (weights fc_example) 0 l)"
     "shape (weights (snd ?r)) = [2, 1]" "wf_array (weights (snd ?r))"
     "at2 (weights (snd ?r)) 0 0 = at2 (weights fc_example) 0 0
         - 1 * ((\<Sum>r<2. at2 batch_example r 0 * at2 dY_example r 0) / real 2)"
     "shape (bias (snd ?r)) = [1, 1]" "wf_array (bias (snd ?r))"
     "at2 (bias (snd ?r)) 0 0 = at2 (bias fc_example) 0 0 - 1 * ((\<Sum>r<2. at2 dY_example r 0) / real 2)"
    by blast
  from FC_backward_update [OF h(1-7) idx(2) idx(1) idx(3)]
  have w1: "at2 (weights (snd ?r)) 1 0 = at2 (weights fc_example) 1 0
         - 1 * ((\<Sum>r<2. at2 batch_example r 1 * at2 dY_example r 0) / real 2)"
    by blast
  have two: "{..<2::nat} = {0, 1}" by auto
  have W: "weights (snd ?r) = \<lparr>shape = [2, 1], data = [- (139 / 20), - (199 / 20)]\<rparr>"
  proof -
    obtain a b where ab: "data (weights (snd ?r)) = [a, b]"
      using g(6,7) by (auto simp: wf_array_def length_Suc_conv eval_nat_numeral)
    have "a = - (139 / 20)" "b = - (199 / 20)"
      using g(8) w1 ab g(6)
      by (simp_all add: at2_def fc_example_def dY_example_def batch_example_def two)
    then show ?thesis using ab g(6) by (cases "weights (snd ?r)") simp
  qed
  have B: "bias (snd ?r) = \<lparr>shape = [1, 1], data = [- (59 / 20)]\<rparr>"
  proof -
    obtain a where ab: "data (bias (snd ?r)) = [a]"
      using g(9,10) by (auto simp: wf_array_def length_Suc_conv)
    have "a = - (59 / 20)"
      using g(11) ab g(9) by (simp add: at2_def fc_example_def dY_example_def two)
    then show ?thesis using ab g(9) by (cases "bias (snd ?r)") simp
  qed
  have "at2 grad 1 0 = 1 / 5" using g(5) by (simp add: at2_def fc_example_def dY_example_def)
  then show ?thesis using g(1-4) W B by blast
qed

subsection \<open>ActivationLayer\<close>

text \<open>For an elementwise derivative (one that keeps the shape), the gradient returned has
  the shape of the cached input.\<close>

lemma ActivationLayer_backward_shape:
  assumes "ActivationLayer_forward self0 X = (out, self)"
    and "activation_grad self0 X = Inr G" and "shape G = shape X" and "shape dY = shape X"
  shows "\<exists>R. ActivationLayer_backward self dY lr = (Inr R, self) \<and> shape R = shape X"
  using assms
  by (auto simp: ActivationLayer_forward_def ActivationLayer_backward_def Let_def then_do_def
      np_times_def split: sum.splits)

subsection \<open>Flatten\<close>

lemma Flatten_forward_ok:
  assumes "shape X = n # rest" and "0 < n" and "wf_array X"
  shows "Flatten_forward self X =
           (Inr \<lparr>shape = [n, prod_list rest], data = data X\<rparr>, self\<lparr>input := Some X\<rparr>)"
  using assms by (simp add: Flatten_forward_def reshape_infer_def wf_array_def)

text \<open>
  Claim C10, as the code has it. For every well-formed input \<open>X\<close> with at least one
  dimension and a non-empty batch, \<open>Flatten_forward\<close> returns an array of shape
  (batch, product of the remaining dimensions) with the elements of \<open>X\<close> unchanged, and
  \<open>Flatten_backward\<close> applied to that output returns an array of the shape of \<open>X\<close>.
\<close>

theorem Flatten_shape_inverse:
  assumes "shape X = n # rest" and "0 < n" and "wf_array X"
  shows "\<exists>Y self1 G self2.
           Flatten_forward self X = (Inr Y, self1)
         \<and> shape Y = [n, prod_list rest] \<and> data Y = data X
         \<and> Flatten_backward self1 Y lr = (Inr G, self2)
         \<and> shape G = shape X \<and> data G = data X"
proof -
  let ?Y = "\<lparr>shape = [n, prod_list rest], data = data X\<rparr>"
  let ?s = "self\<lparr>input := Some X\<rparr>"
  have fw: "Flatten_forward self X = (Inr ?Y, ?s)"
    by (rule Flatten_forward_ok [OF assms])
  have bw: "Flatten_backward ?s ?Y lr = (Inr \<lparr>shape = shape X, data = data X\<rparr>, ?s)"
    using assms by (simp add: Flatten_backward_def reshape_def wf_array_def)
  show ?thesis using fw bw by simp
qed

theorem Flatten_shape_inverse_witness:
  "\<exists>Y self1 G self2.
     Flatten_forward \<lparr>input = None, output_val = None\<rparr>
        \<lparr>shape = [2, 1, 3], data = [1, 2, 3, 4, 5, 6]\<rparr> = (Inr Y, self1)
   \<and> shape Y = [2, prod_list [1, 3]] \<and> data Y = [1, 2, 3, 4, 5, 6]
   \<and> Flatten_backward self1 Y 0 = (Inr G, self2)
   \<and> shape G = [2, 1, 3] \<and> data G = [1, 2, 3, 4, 5, 6]"
  using Flatten_shape_inverse [of "\<lparr>shape = [2, 1, 3], data = [1, 2, 3, 4, 5, 6]\<rparr>" 2 "[1, 3]"
      "\<lparr>input = None, output_val = None\<rparr>" 0]
  by (simp add: wf_array_def)

text \<open>
  Claim C10 as stated fails on an empty batch: for an input of shape (0, 3) numpy cannot
  infer the second dimension of \<^verbatim>\<open>reshape(0, -1)\<close> and \<open>Flatten_forward\<close> raises.
\<close>

theorem Flatten_empty_batch_raises:
  "wf_array \<lparr>shape = [0, 3], data = []\<rparr>
   \<and> fst (Flatten_forward \<lparr>input = None, output_val = None\<rparr> \<lparr>shape = [0, 3], data = []\<rparr>)
       = Inl ValueError"
  by (simp add: Flatten_forward_def reshape_infer_def wf_array_def)

end
